theory Spec2Isabelle
  imports Complex_Main "HOL-Library.Log_Nat" "HOL-Library.Word"
begin

section \<open>Scroll-progress easing\<close>

subsection \<open>JavaScript numbers\<close>

text \<open>
  A JavaScript number is an IEEE 754 binary64 value.  A finite one is modelled by the real
  number it denotes, the two infinities and \<open>NaN\<close> by constructors of their own.  Zero
  has no sign here: the sign of a zero shows only in a division by it, and the one divisor
  below is \<open>headerHeight * 0.3\<close> for a non-negative integer \<open>headerHeight\<close>, which
  is never \<open>-0\<close>.
\<close>

datatype number = Finite real | PlusInfinity | MinusInfinity | NaN

text \<open>The binary exponent of a non-zero real, the floor of the logarithm to base 2 of \<open>\<bar>x\<bar>\<close>, from the bit length of
  \<open>\<lfloor>\<bar>x\<bar>\<rfloor>\<close> or of \<open>\<lceil>1 / \<bar>x\<bar>\<rceil> - 1\<close>.\<close>

definition exponent :: "real \<Rightarrow> int" where
  "exponent x =
     (if 1 \<le> \<bar>x\<bar> then int (floorlog 2 (nat \<lfloor>\<bar>x\<bar>\<rfloor>)) - 1
      else - int (floorlog 2 (nat (\<lceil>1 / \<bar>x\<bar>\<rceil> - 1))))"

text \<open>Rounding to the nearest integer, a tie to the even one.\<close>

definition roundTiesToEven :: "real \<Rightarrow> int" where
  "roundTiesToEven r =
     (let n = \<lfloor>r\<rfloor>
      in if r - of_int n < 1 / 2 then n
         else if 1 / 2 < r - of_int n then n + 1
         else if even n then n else n + 1)"

text \<open>The distance between neighbouring doubles around \<open>x\<close>: 52 fraction bits below the
  exponent, and the spacing of the subnormal numbers below \<open>2 powi (- 1022)\<close>.\<close>

definition quantum :: "real \<Rightarrow> real" where
  "quantum x = 2 powi (max (exponent x) (- 1022) - 52)"

definition roundedValue :: "real \<Rightarrow> real" where
  "roundedValue x = of_int (roundTiesToEven (x / quantum x)) * quantum x"

text \<open>The number that an exact result \<open>x\<close> becomes: the nearest double, an infinity once
  the rounded magnitude reaches \<open>2 ^ 1024\<close>.  A numeric literal denotes the number of its
  decimal value, so \<open>0.3\<close> is \<open>toNumber (3 / 10)\<close>.\<close>

definition toNumber :: "real \<Rightarrow> number" where
  "toNumber x =
     (let v = roundedValue x
      in if \<bar>v\<bar> < 2 ^ 1024 then Finite v
         else if 0 < v then PlusInfinity else MinusInfinity)"

fun isZero :: "number \<Rightarrow> bool" where
  "isZero (Finite x) = (x = 0)"
| "isZero _ = False"

fun isNegative :: "number \<Rightarrow> bool" where
  "isNegative (Finite x) = (x < 0)"
| "isNegative MinusInfinity = True"
| "isNegative _ = False"

definition infinity :: "bool \<Rightarrow> number" where
  "infinity negative = (if negative then MinusInfinity else PlusInfinity)"

text \<open>The operators \<open>*\<close>, \<open>/\<close> and \<open>-\<close> on numbers (ECMAScript \<open>Number::multiply\<close>,
  \<open>Number::divide\<close>, \<open>Number::subtract\<close>) and \<open>Math.min\<close> of two numbers.\<close>

fun number_multiply :: "number \<Rightarrow> number \<Rightarrow> number" where
  "number_multiply NaN b = NaN"
| "number_multiply a NaN = NaN"
| "number_multiply (Finite x) (Finite y) = toNumber (x * y)"
| "number_multiply a b =
     (if isZero a \<or> isZero b then NaN else infinity (isNegative a \<noteq> isNegative b))"

fun number_divide :: "number \<Rightarrow> number \<Rightarrow> number" where
  "number_divide NaN b = NaN"
| "number_divide a NaN = NaN"
| "number_divide (Finite x) (Finite y) =
     (if y = 0 then (if x = 0 then NaN else infinity (x < 0)) else toNumber (x / y))"
| "number_divide (Finite x) b = Finite 0"
| "number_divide a (Finite y) = infinity (isNegative a \<noteq> (y < 0))"
| "number_divide a b = NaN"

fun number_subtract :: "number \<Rightarrow> number \<Rightarrow> number" where
  "number_subtract NaN b = NaN"
| "number_subtract a NaN = NaN"
| "number_subtract (Finite x) (Finite y) = toNumber (x - y)"
| "number_subtract (Finite x) b = infinity (\<not> isNegative b)"
| "number_subtract a (Finite y) = a"
| "number_subtract a b = (if isNegative a = isNegative b then NaN else a)"

fun math_min :: "number \<Rightarrow> number \<Rightarrow> number" where
  "math_min NaN b = NaN"
| "math_min a NaN = NaN"
| "math_min MinusInfinity b = MinusInfinity"
| "math_min a MinusInfinity = MinusInfinity"
| "math_min PlusInfinity b = b"
| "math_min a PlusInfinity = a"
| "math_min (Finite x) (Finite y) = Finite (min x y)"

subsection \<open>The eased progress\<close>

text \<open>
  The three places that compute the eased scroll progress (\<open>updateScroll\<close> of the header,
  \<open>updateScrollProgress\<close> of the image effect, \<open>updateWarmth\<close>) share the statements
  \<^verbatim>\<open>d = headerHeight * 0.3; p = Math.min(1.0, window.scrollY / d); p = p * p * (3 - 2 * p)\<close>.
  \<open>headerHeight\<close> is an \<open>offsetHeight\<close>, a non-negative integer, or the constant 256;
  \<open>window.scrollY\<close> is a finite number.
\<close>

text \<open>\<^verbatim>\<open>headerHeight * 0.3\<close>\<close>

definition warmthDistance :: "nat \<Rightarrow> number" where
  "warmthDistance headerHeight = number_multiply (Finite (real headerHeight)) (toNumber (3 / 10))"

text \<open>\<^verbatim>\<open>Math.min(1.0, window.scrollY / distance)\<close>\<close>

definition linearProgress :: "number \<Rightarrow> number \<Rightarrow> number" where
  "linearProgress scrollY distance = math_min (Finite 1) (number_divide scrollY distance)"

text \<open>\<^verbatim>\<open>progress * progress * (3 - 2 * progress)\<close>, that is
  \<^verbatim>\<open>(progress * progress) * (3 - (2 * progress))\<close>.\<close>

definition smoothProgress :: "number \<Rightarrow> number" where
  "smoothProgress progress =
     number_multiply (number_multiply progress progress)
       (number_subtract (Finite 3) (number_multiply (Finite 2) progress))"

text \<open>\<open>updateWarmth\<close> (background warmth effect): the progress it passes to \<open>lerpColor\<close>.\<close>

definition updateWarmth_progress :: "nat \<Rightarrow> real \<Rightarrow> number" where
  "updateWarmth_progress headerHeight scrollY =
     (let scrollDistance = warmthDistance headerHeight;
          progress = linearProgress (Finite scrollY) scrollDistance
      in smoothProgress progress)"

text \<open>
  \<open>updateScrollProgress\<close> (image effect): the header's \<open>offsetHeight\<close> when a
  \<open>.header-image\<close> element exists, 256 otherwise; the value stored in \<open>scrollProgress\<close>.
\<close>

definition updateScrollProgress :: "nat option \<Rightarrow> real \<Rightarrow> number" where
  "updateScrollProgress header scrollY =
     (let headerHeight = (case header of Some offsetHeight \<Rightarrow> offsetHeight | None \<Rightarrow> 256);
          warmthDistance = warmthDistance headerHeight;
          progress = linearProgress (Finite scrollY) warmthDistance
      in smoothProgress progress)"

subsection \<open>Rounding\<close>

lemma two_powi_less_iff: "(2::real) powi a < 2 powi b \<longleftrightarrow> a < b"
proof
  assume l: "(2::real) powi a < 2 powi b"
  show "a < b"
  proof (rule ccontr)
    assume "\<not> a < b"
    then have "b \<le> a" by simp
    then have "(2::real) powi b \<le> 2 powi a" by (rule power_int_increasing) simp
    with l show False by simp
  qed
next
  assume "a < b"
  then show "(2::real) powi a < 2 powi b" by (rule power_int_strict_increasing) simp
qed

lemma two_powi_le_iff: "(2::real) powi a \<le> 2 powi b \<longleftrightarrow> a \<le> b"
  using two_powi_less_iff [of b a] by (simp add: not_less [symmetric])

lemma exponent_bounds:
  assumes "x \<noteq> 0"
  shows "2 powi exponent x \<le> \<bar>x\<bar>" and "\<bar>x\<bar> < 2 powi (exponent x + 1)"
proof -
  have both: "2 powi exponent x \<le> \<bar>x\<bar> \<and> \<bar>x\<bar> < 2 powi (exponent x + 1)"
  proof (cases "1 \<le> \<bar>x\<bar>")
    case True
    define n where "n = nat \<lfloor>\<bar>x\<bar>\<rfloor>"
    define k where "k = floorlog 2 n"
    have n1: "1 \<le> n" using True by (simp add: n_def le_nat_iff)
    then have npos: "0 < n" by simp
    have b: "2 ^ (k - 1) \<le> n" "n < 2 ^ k"
      using floorlog_bounds [OF npos, of 2] by (simp_all add: k_def)
    have kpos: "0 < k" using b(2) n1 by (cases k) simp_all
    have nx: "real n \<le> \<bar>x\<bar>" "\<bar>x\<bar> < real n + 1"
      using True unfolding n_def by linarith+
    have e: "exponent x = int k - 1" using True by (simp add: exponent_def n_def k_def)
    have "2 powi (int k - 1) = (2::real) ^ (k - 1)"
      using kpos by (simp add: power_int_def nat_diff_distrib')
    also have "\<dots> \<le> real n" using b(1) by (metis of_nat_le_iff of_nat_numeral of_nat_power)
    finally have lo: "2 powi (int k - 1) \<le> \<bar>x\<bar>" using nx(1) by linarith
    have "n + 1 \<le> 2 ^ k" using b(2) by simp
    then have "real (n + 1) \<le> 2 ^ k" by (metis of_nat_le_iff of_nat_numeral of_nat_power)
    then have hi: "\<bar>x\<bar> < 2 powi (int k - 1 + 1)" using nx(2) by (simp add: power_int_def)
    show ?thesis using lo hi e by simp
  next
    case False
    define t where "t = 1 / \<bar>x\<bar>"
    define m where "m = nat (\<lceil>t\<rceil> - 1)"
    define k where "k = floorlog 2 m"
    have xpos: "0 < \<bar>x\<bar>" using assms by simp
    have t1: "1 < t" using False xpos by (simp add: t_def)
    then have ct: "2 \<le> \<lceil>t\<rceil>" by linarith
    then have m1: "1 \<le> m" unfolding m_def by linarith
    then have mpos: "0 < m" by simp
    have mt: "real m < t" "t \<le> real m + 1"
      using ct unfolding m_def by linarith+
    have b: "2 ^ (k - 1) \<le> m" "m < 2 ^ k"
      using floorlog_bounds [OF mpos, of 2] by (simp_all add: k_def)
    have kpos: "0 < k" using b(2) m1 by (cases k) simp_all
    have e: "exponent x = - int k" using False by (simp add: exponent_def m_def k_def t_def)
    have "m + 1 \<le> 2 ^ k" using b(2) by simp
    then have "real (m + 1) \<le> 2 ^ k" by (metis of_nat_le_iff of_nat_numeral of_nat_power)
    then have "t \<le> 2 ^ k" using mt(2) by simp
    then have "1 \<le> \<bar>x\<bar> * 2 ^ k" using xpos by (simp add: t_def pos_divide_le_eq mult.commute)
    then have "1 / 2 ^ k \<le> \<bar>x\<bar>" by (simp add: pos_divide_le_eq)
    moreover have "2 powi (- int k) = 1 / (2::real) ^ k"
      by (simp add: power_int_minus inverse_eq_divide)
    ultimately have lo: "2 powi (- int k) \<le> \<bar>x\<bar>" by simp
    have "(2::real) ^ (k - 1) \<le> real m" using b(1) by (metis of_nat_le_iff of_nat_numeral of_nat_power)
    then have "2 ^ (k - 1) < t" using mt(1) by linarith
    then have "\<bar>x\<bar> * 2 ^ (k - 1) < 1" using xpos by (simp add: t_def pos_less_divide_eq mult.commute)
    then have "\<bar>x\<bar> < 1 / 2 ^ (k - 1)" by (simp add: pos_less_divide_eq)
    moreover have "- int k + 1 = - int (k - 1)" using kpos by simp
    then have "2 powi (- int k + 1) = 1 / (2::real) ^ (k - 1)"
      by (simp only: power_int_minus power_int_of_nat inverse_eq_divide)
    ultimately have hi: "\<bar>x\<bar> < 2 powi (- int k + 1)" by simp
    show ?thesis using lo hi e by simp
  qed
  show "2 powi exponent x \<le> \<bar>x\<bar>" and "\<bar>x\<bar> < 2 powi (exponent x + 1)"
    using both by simp_all
qed

lemma exponent_eqI:
  assumes "2 powi e \<le> \<bar>x\<bar>" "\<bar>x\<bar> < 2 powi (e + 1)"
  shows "exponent x = e"
proof -
  have "(0::real) < 2 powi e" by simp
  then have "0 < \<bar>x\<bar>" using assms(1) by linarith
  then have x0: "x \<noteq> 0" by simp
  note b = exponent_bounds [OF x0]
  have "(2::real) powi exponent x < 2 powi (e + 1)" using b(1) assms(2) by linarith
  then have "exponent x < e + 1" by (simp add: two_powi_less_iff)
  moreover have "(2::real) powi e < 2 powi (exponent x + 1)" using b(2) assms(1) by linarith
  then have "e < exponent x + 1" by (simp add: two_powi_less_iff)
  ultimately show ?thesis by simp
qed


lemma roundTiesToEven_error: "\<bar>of_int (roundTiesToEven r) - r\<bar> \<le> 1 / 2"
proof -
  have "of_int \<lfloor>r\<rfloor> \<le> r" "r < of_int \<lfloor>r\<rfloor> + 1" by linarith+
  then show ?thesis by (auto simp: roundTiesToEven_def Let_def)
qed

lemma roundTiesToEven_of_int: "roundTiesToEven (of_int n) = n"
  by (simp add: roundTiesToEven_def)

lemma roundTiesToEven_range:
  "\<lfloor>r\<rfloor> \<le> roundTiesToEven r" "roundTiesToEven r \<le> \<lfloor>r\<rfloor> + 1"
  by (simp_all add: roundTiesToEven_def Let_def)

lemma roundTiesToEven_mono:
  assumes "r \<le> r'"
  shows "roundTiesToEven r \<le> roundTiesToEven r'"
proof (cases "\<lfloor>r\<rfloor> = \<lfloor>r'\<rfloor>")
  case True
  then show ?thesis using assms by (auto simp: roundTiesToEven_def Let_def)
next
  case False
  moreover have "\<lfloor>r\<rfloor> \<le> \<lfloor>r'\<rfloor>" using assms by (rule floor_mono)
  ultimately have "\<lfloor>r\<rfloor> + 1 \<le> \<lfloor>r'\<rfloor>" by simp
  then show ?thesis
    using roundTiesToEven_range(2) [of r] roundTiesToEven_range(1) [of r'] by linarith
qed

lemma quantum_pos: "0 < quantum x"
  by (simp add: quantum_def)

lemma roundedValue_error: "\<bar>roundedValue x - x\<bar> \<le> quantum x / 2"
proof -
  define q where "q = quantum x"
  have q: "0 < q" by (simp add: q_def quantum_pos)
  have "roundedValue x - x = (of_int (roundTiesToEven (x / q)) - x / q) * q"
    using q by (simp add: roundedValue_def q_def algebra_simps)
  then have "\<bar>roundedValue x - x\<bar> = \<bar>of_int (roundTiesToEven (x / q)) - x / q\<bar> * q"
    using q by (simp add: abs_mult)
  also have "\<dots> \<le> 1 / 2 * q"
    using roundTiesToEven_error [of "x / q"] q by (intro mult_right_mono) simp_all
  finally show ?thesis by (simp add: q_def)
qed

lemma roundedValue_zero: "roundedValue 0 = 0"
  by (simp add: roundedValue_def roundTiesToEven_def)

lemma roundedValue_nonneg:
  assumes "0 \<le> x"
  shows "0 \<le> roundedValue x"
proof -
  have "0 \<le> x / quantum x" using assms quantum_pos [of x] by simp
  then have "roundTiesToEven 0 \<le> roundTiesToEven (x / quantum x)" by (rule roundTiesToEven_mono)
  then have "0 \<le> roundTiesToEven (x / quantum x)" by (simp add: roundTiesToEven_def)
  then show ?thesis using quantum_pos [of x] by (simp add: roundedValue_def)
qed


lemma exponent_mono:
  assumes "0 < x" "x \<le> x'"
  shows "exponent x \<le> exponent x'"
proof -
  have "2 powi exponent x \<le> \<bar>x\<bar>" using assms(1) by (intro exponent_bounds) simp
  moreover have "\<bar>x'\<bar> < 2 powi (exponent x' + 1)" using assms by (intro exponent_bounds) simp
  ultimately have "(2::real) powi exponent x < 2 powi (exponent x' + 1)" using assms by simp
  then show ?thesis by (simp add: two_powi_less_iff)
qed

lemma quantum_scale: "2 ^ 52 * quantum x = 2 powi max (exponent x) (- 1022)"
proof -
  have "(2::real) ^ 52 = 2 powi 52" by simp
  then have "2 ^ 52 * quantum x = 2 powi 52 * 2 powi (max (exponent x) (- 1022) - 52)"
    by (simp only: quantum_def)
  also have "\<dots> = 2 powi (52 + (max (exponent x) (- 1022) - 52))"
    by (rule power_int_add [symmetric]) simp
  finally show ?thesis by simp
qed

lemma roundedValue_upper:
  assumes "0 < x"
  shows "roundedValue x \<le> 2 powi (max (exponent x) (- 1022) + 1)"
proof -
  define q where "q = quantum x"
  have q: "0 < q" by (simp add: q_def quantum_pos)
  have "x < 2 powi (exponent x + 1)" using exponent_bounds(2) [of x] assms by simp
  also have "\<dots> \<le> 2 powi (max (exponent x) (- 1022) + 1)" by (simp add: two_powi_le_iff)
  also have "\<dots> = 2 * 2 powi max (exponent x) (- 1022)" by (simp add: power_int_add)
  also have "\<dots> = 2 ^ 53 * q" using quantum_scale [of x] by (simp add: q_def)
  finally have "x / q \<le> of_int (2 ^ 53)" using q by (simp add: pos_divide_le_eq)
  then have "roundTiesToEven (x / q) \<le> roundTiesToEven (of_int (2 ^ 53))"
    by (rule roundTiesToEven_mono)
  then have "roundTiesToEven (x / q) \<le> 2 ^ 53" by (simp only: roundTiesToEven_of_int)
  then have "(of_int (roundTiesToEven (x / q)) :: real) \<le> of_int (2 ^ 53)" by (simp only: of_int_le_iff)
  then have "roundedValue x \<le> 2 ^ 53 * q"
    using q by (simp add: roundedValue_def q_def)
  also have "\<dots> = 2 * 2 powi max (exponent x) (- 1022)" using quantum_scale [of x] by (simp add: q_def)
  also have "\<dots> = 2 powi (max (exponent x) (- 1022) + 1)" by (simp add: power_int_add)
  finally show ?thesis .
qed

lemma roundedValue_lower:
  assumes "0 < x" "- 1022 \<le> exponent x"
  shows "2 powi exponent x \<le> roundedValue x"
proof -
  define q where "q = quantum x"
  have q: "0 < q" by (simp add: q_def quantum_pos)
  have m: "max (exponent x) (- 1022) = exponent x" using assms(2) by simp
  have "2 ^ 52 * q = 2 powi exponent x" using quantum_scale [of x] m by (simp add: q_def)
  also have "\<dots> \<le> x" using exponent_bounds(1) [of x] assms(1) by simp
  finally have "of_int (2 ^ 52) \<le> x / q" using q by (simp add: pos_le_divide_eq)
  then have "roundTiesToEven (of_int (2 ^ 52)) \<le> roundTiesToEven (x / q)"
    by (rule roundTiesToEven_mono)
  then have "2 ^ 52 \<le> roundTiesToEven (x / q)" by (simp only: roundTiesToEven_of_int)
  then have "(of_int (2 ^ 52) :: real) \<le> of_int (roundTiesToEven (x / q))" by (simp only: of_int_le_iff)
  then have "2 ^ 52 * q \<le> roundedValue x"
    using q by (simp add: roundedValue_def q_def)
  then show ?thesis using quantum_scale [of x] m by (simp add: q_def)
qed

lemma roundedValue_mono:
  assumes "0 \<le> x" "x \<le> x'"
  shows "roundedValue x \<le> roundedValue x'"
proof (cases "x = 0")
  case True
  then show ?thesis using assms roundedValue_nonneg [of x'] by (simp add: roundedValue_zero)
next
  case False
  then have x: "0 < x" "0 < x'" using assms by simp_all
  define E where "E = max (exponent x) (- 1022)"
  define E' where "E' = max (exponent x') (- 1022)"
  have EE: "E \<le> E'" using exponent_mono [OF x(1) assms(2)] by (simp add: E_def E'_def)
  show ?thesis
  proof (cases "E = E'")
    case True
    then have q: "quantum x = quantum x'" by (simp add: quantum_def E_def E'_def)
    have "x / quantum x' \<le> x' / quantum x'"
      using assms(2) quantum_pos [of x'] by (simp add: divide_right_mono)
    then have "roundTiesToEven (x / quantum x') \<le> roundTiesToEven (x' / quantum x')"
      by (rule roundTiesToEven_mono)
    then show ?thesis
      using quantum_pos [of x'] by (simp add: roundedValue_def q)
  next
    case False
    then have lt: "E + 1 \<le> E'" using EE by simp
    then have e': "E' = exponent x'" "- 1022 \<le> exponent x'"
      by (simp_all add: E_def E'_def max_def split: if_splits)
    have "roundedValue x \<le> 2 powi (E + 1)" using roundedValue_upper [OF x(1)] by (simp add: E_def)
    also have "\<dots> \<le> 2 powi E'" using lt by (simp add: two_powi_le_iff)
    also have "\<dots> \<le> roundedValue x'" using roundedValue_lower [OF x(2) e'(2)] e'(1) by simp
    finally show ?thesis .
  qed
qed

lemma roundedValue_exact:
  assumes "x = of_int n * quantum x"
  shows "roundedValue x = x"
proof -
  have "x / quantum x = of_int n" using assms quantum_pos [of x] by (simp add: field_simps)
  then show ?thesis using assms by (simp add: roundedValue_def roundTiesToEven_of_int)
qed

lemma roundedValue_error_bound:
  assumes "\<bar>x\<bar> \<le> 2 powi k" "- 1021 \<le> k"
  shows "\<bar>roundedValue x - x\<bar> \<le> 2 powi (k - 54)"
proof (cases "x = 0 \<or> \<bar>x\<bar> = 2 powi k")
  case True
  then show ?thesis
  proof
    assume "x = 0"
    then show ?thesis by (simp add: roundedValue_zero)
  next
    assume eq: "\<bar>x\<bar> = 2 powi k"
    have "\<bar>x\<bar> < 2 powi (k + 1)" unfolding eq by (simp add: two_powi_less_iff)
    then have e: "exponent x = k" using eq by (intro exponent_eqI) simp_all
    then have m: "max (exponent x) (- 1022) = k" using assms(2) by simp
    have s: "2 ^ 52 * quantum x = \<bar>x\<bar>" using quantum_scale [of x] m eq by simp
    have "x = of_int (if 0 \<le> x then 2 ^ 52 else - (2 ^ 52)) * quantum x"
      using s by (cases "0 \<le> x") simp_all
    then have "roundedValue x = x" by (rule roundedValue_exact)
    then show ?thesis by simp
  qed
next
  case False
  then have x: "x \<noteq> 0" "\<bar>x\<bar> < 2 powi k" using assms(1) by simp_all
  have "(2::real) powi exponent x < 2 powi k" using exponent_bounds(1) [OF x(1)] x(2) by linarith
  then have "exponent x < k" by (simp add: two_powi_less_iff)
  then have "max (exponent x) (- 1022) - 52 \<le> k - 53" using assms(2) by simp
  then have "quantum x \<le> 2 powi (k - 53)" by (simp add: quantum_def two_powi_le_iff)
  moreover have "2 powi (k - 53) = 2 * (2::real) powi (k - 54)"
  proof -
    have "(2::real) powi (k - 53) = 2 powi (1 + (k - 54))" by simp
    also have "\<dots> = 2 powi 1 * 2 powi (k - 54)" by (rule power_int_add) simp
    finally show ?thesis by simp
  qed
  ultimately show ?thesis using roundedValue_error [of x] by linarith
qed

lemmas roundedValue_eval =
  roundedValue_def quantum_def exponent_def compute_floorlog roundTiesToEven_def Let_def

lemma roundedValue_samples:
  "roundedValue 1 = 1" "roundedValue 2 = 2" "roundedValue 3 = 3" "roundedValue (1 / 4) = 1 / 4"
  "roundedValue (1 + 1 / 2 ^ 53) = 1"
  by (simp_all add: roundedValue_eval)

lemma toNumber_finite:
  assumes "\<bar>roundedValue x\<bar> \<le> 4"
  shows "toNumber x = Finite (roundedValue x)"
proof -
  have "(4::real) < 2 ^ 1024" by simp
  then have "\<bar>roundedValue x\<bar> < 2 ^ 1024" using assms by linarith
  then show ?thesis by (simp add: toNumber_def Let_def)
qed

lemma exact_unit_binade:
  assumes "2 ^ 52 \<le> n" "n < 2 ^ 53"
  shows "roundedValue (of_int n / 2 ^ 52) = of_int n / 2 ^ 52"
proof -
  define x :: real where "x = of_int n / 2 ^ 52"
  have "(of_int (2 ^ 52) :: real) \<le> of_int n" using assms(1) by (simp only: of_int_le_iff)
  then have lo: "1 \<le> x" by (simp add: x_def)
  have "(of_int n :: real) < of_int (2 ^ 53)" using assms(2) by (simp only: of_int_less_iff)
  then have hi: "x < 2" by (simp add: x_def)
  have "exponent x = 0" using lo hi by (intro exponent_eqI) simp_all
  then have q: "quantum x = 1 / 2 ^ 52" by (simp add: quantum_def)
  have "x = of_int n * quantum x" unfolding q by (simp add: x_def)
  then have "roundedValue x = x" by (rule roundedValue_exact)
  then show ?thesis by (simp add: x_def)
qed

lemma upper_half_mantissa:
  assumes "0 \<le> z" "1 / 2 < roundedValue z" "roundedValue z < 1"
  shows "\<exists>n. roundedValue z = of_int n / 2 ^ 53 \<and> 2 ^ 52 < n \<and> n < 2 ^ 53"
proof -
  have zpos: "0 < z" using assms(1,2) by (cases "z = 0") (simp_all add: roundedValue_zero)
  define E where "E = max (exponent z) (- 1022)"
  have h: "(2::real) powi (- 1) = 1 / 2" by simp
  have "roundedValue z \<le> 2 powi (E + 1)" using roundedValue_upper [OF zpos] unfolding E_def .
  then have "(2::real) powi (- 1) < 2 powi (E + 1)" using assms(2) unfolding h by linarith
  then have "- 1 < E + 1" by (simp only: two_powi_less_iff)
  then have E1: "- 1 \<le> E" by simp
  have "exponent z < 0"
  proof (rule ccontr)
    assume "\<not> exponent z < 0"
    then have nonneg: "0 \<le> exponent z" by simp
    then have "(2::real) powi 0 \<le> 2 powi exponent z" by (simp only: two_powi_le_iff)
    moreover have "2 powi exponent z \<le> roundedValue z"
      using nonneg by (intro roundedValue_lower [OF zpos]) simp
    ultimately show False using assms(3) by simp
  qed
  then have "E = - 1" using E1 by (simp add: E_def)
  then have q: "quantum z = 1 / 2 ^ 53" by (simp add: quantum_def E_def)
  define n where "n = roundTiesToEven (z / quantum z)"
  have v: "roundedValue z = of_int n / 2 ^ 53" by (simp add: roundedValue_def n_def q)
  have "(of_int (2 ^ 52) :: real) < of_int n" using assms(2) by (simp add: v)
  then have "2 ^ 52 < n" by (simp only: of_int_less_iff)
  moreover have "(of_int n :: real) < of_int (2 ^ 53)" using assms(3) by (simp add: v)
  then have "n < 2 ^ 53" by (simp only: of_int_less_iff)
  ultimately show ?thesis using v by blast
qed


lemma smoothProgress_steps:
  assumes "c = roundedValue (2 * p)" "\<bar>c\<bar> \<le> 4"
    and "b = roundedValue (3 - c)" "\<bar>b\<bar> \<le> 4"
    and "a = roundedValue (p * p)" "\<bar>a\<bar> \<le> 4"
    and "r = roundedValue (a * b)" "\<bar>r\<bar> \<le> 4"
  shows "smoothProgress (Finite p) = Finite r"
proof -
  have "toNumber (2 * p) = Finite c" using assms(1,2) by (simp add: toNumber_finite)
  moreover have "toNumber (3 - c) = Finite b" using assms(3,4) by (simp add: toNumber_finite)
  moreover have "toNumber (p * p) = Finite a" using assms(5,6) by (simp add: toNumber_finite)
  moreover have "toNumber (a * b) = Finite r" using assms(7,8) by (simp add: toNumber_finite)
  ultimately show ?thesis by (simp add: smoothProgress_def)
qed

lemma smoothProgress_one: "smoothProgress (Finite 1) = Finite 1"
  by (rule smoothProgress_steps [where c = 2 and b = 1 and a = 1])
     (simp_all add: roundedValue_samples)

lemma smoothProgress_lower_half:
  assumes "0 \<le> p" "p \<le> 1 / 2"
  shows "\<exists>r. smoothProgress (Finite p) = Finite r \<and> 0 \<le> r \<and> r \<le> 1
           \<and> \<bar>r - p * p * (3 - 2 * p)\<bar> \<le> 1 / 2 ^ 52"
proof -
  define u :: real where "u = 1 / 2 ^ 56"
  have u: "0 < u" by (simp add: u_def)
  define c where "c = roundedValue (2 * p)"
  define b where "b = roundedValue (3 - c)"
  define a where "a = roundedValue (p * p)"
  define r where "r = roundedValue (a * b)"
  have "\<bar>2 * p\<bar> \<le> 2 powi 0" using assms by simp
  then have "\<bar>c - 2 * p\<bar> \<le> 2 powi (0 - 54)" unfolding c_def by (rule roundedValue_error_bound) simp
  then have c_err: "\<bar>c - 2 * p\<bar> \<le> 4 * u" by (simp add: u_def)
  have c0: "0 \<le> c" unfolding c_def using assms by (intro roundedValue_nonneg) simp
  have "c \<le> roundedValue 1" unfolding c_def using assms by (intro roundedValue_mono) simp_all
  then have c1: "c \<le> 1" by (simp add: roundedValue_samples)
  have "\<bar>3 - c\<bar> \<le> 2 powi 2" using c0 c1 by simp
  then have "\<bar>b - (3 - c)\<bar> \<le> 2 powi (2 - 54)" unfolding b_def by (rule roundedValue_error_bound) simp
  then have b_err: "\<bar>b - (3 - c)\<bar> \<le> 16 * u" by (simp add: u_def)
  have b0: "0 \<le> b" unfolding b_def using c1 by (intro roundedValue_nonneg) simp
  have "b \<le> roundedValue 3" unfolding b_def using c0 c1 by (intro roundedValue_mono) simp_all
  then have b3: "b \<le> 3" by (simp add: roundedValue_samples)
  have pp: "0 \<le> p * p" "p * p \<le> 1 / 4"
  proof -
    show "0 \<le> p * p" by simp
    have "p * p \<le> (1 / 2) * (1 / 2)" using assms by (intro mult_mono) simp_all
    then show "p * p \<le> 1 / 4" by simp
  qed
  have "\<bar>p * p\<bar> \<le> 2 powi (- 2)" using pp by simp
  then have "\<bar>a - p * p\<bar> \<le> 2 powi (- 2 - 54)" unfolding a_def by (rule roundedValue_error_bound) simp
  then have a_err: "\<bar>a - p * p\<bar> \<le> u" by (simp add: u_def)
  have a0: "0 \<le> a" unfolding a_def using pp by (intro roundedValue_nonneg)
  have "a \<le> roundedValue (1 / 4)" unfolding a_def using pp by (intro roundedValue_mono)
  then have a4: "a \<le> 1 / 4" by (simp add: roundedValue_samples)
  have ab0: "0 \<le> a * b" using a0 b0 by simp
  have "a * b \<le> (1 / 4) * 3" using a0 a4 b0 b3 by (intro mult_mono) simp_all
  then have ab1: "a * b \<le> 1" by simp
  have "\<bar>a * b\<bar> \<le> 2 powi 0" using ab0 ab1 by simp
  then have "\<bar>r - a * b\<bar> \<le> 2 powi (0 - 54)" unfolding r_def by (rule roundedValue_error_bound) simp
  then have r_err: "\<bar>r - a * b\<bar> \<le> 4 * u" by (simp add: u_def)
  have r0: "0 \<le> r" unfolding r_def using ab0 by (intro roundedValue_nonneg)
  have "r \<le> roundedValue 1" unfolding r_def using ab0 ab1 by (intro roundedValue_mono)
  then have r1: "r \<le> 1" by (simp add: roundedValue_samples)
  have t1: "\<bar>(a - p * p) * b\<bar> \<le> u * 3"
    unfolding abs_mult using a_err b0 b3 by (intro mult_mono) simp_all
  have bd: "\<bar>b - (3 - 2 * p)\<bar> \<le> 20 * u" using b_err c_err by linarith
  have t2: "\<bar>p * p * (b - (3 - 2 * p))\<bar> \<le> (1 / 4) * (20 * u)"
    unfolding abs_mult using bd pp u by (intro mult_mono) simp_all
  have "a * b - p * p * (3 - 2 * p) = (a - p * p) * b + p * p * (b - (3 - 2 * p))"
    by (simp add: algebra_simps)
  then have "\<bar>a * b - p * p * (3 - 2 * p)\<bar> \<le> 8 * u" using t1 t2 by linarith
  then have "\<bar>r - p * p * (3 - 2 * p)\<bar> \<le> 16 * u" using r_err u by linarith
  then have err: "\<bar>r - p * p * (3 - 2 * p)\<bar> \<le> 1 / 2 ^ 52" by (simp add: u_def)
  have "smoothProgress (Finite p) = Finite r"
    using c0 c1 b0 b3 a0 a4 r0 r1
    by (intro smoothProgress_steps [where c = c and b = b and a = a]) (simp_all add: c_def b_def a_def r_def)
  then show ?thesis using r0 r1 err by blast
qed


lemma smooth_mono:
  fixes p q :: real
  assumes "0 \<le> p" "p \<le> q" "q \<le> 1"
  shows "p * p * (3 - 2 * p) \<le> q * q * (3 - 2 * q)"
proof -
  define x y z where "x = p * p" and "y = p * q" and "z = q * q"
  have "y \<le> p" using assms by (simp add: y_def mult_left_le)
  moreover have "y \<le> q" using assms by (simp add: y_def mult_left_le_one_le)
  moreover have "x \<le> p" using assms by (simp add: x_def mult_left_le)
  moreover have "z \<le> q" using assms by (simp add: z_def mult_left_le)
  ultimately have "2 * x + 2 * y + 2 * z \<le> 3 * p + 3 * q" by linarith
  then have "0 \<le> 3 * (p + q) - 2 * (p * p + p * q + q * q)"
    by (simp add: x_def y_def z_def)
  moreover have "0 \<le> q - p" using assms by simp
  ultimately have "0 \<le> (q - p) * (3 * (p + q) - 2 * (p * p + p * q + q * q))"
    by (rule_tac mult_nonneg_nonneg)
  moreover have "q * q * (3 - 2 * q) - p * p * (3 - 2 * p)
      = (q - p) * (3 * (p + q) - 2 * (p * p + p * q + q * q))"
    by (simp add: algebra_simps)
  ultimately show ?thesis by simp
qed

lemma smooth_bounds:
  fixes p :: real
  assumes "0 \<le> p" "p \<le> 1"
  shows "0 \<le> p * p * (3 - 2 * p)" and "p * p * (3 - 2 * p) \<le> 1"
proof -
  show "0 \<le> p * p * (3 - 2 * p)" using assms by simp
  have "p * p * (3 - 2 * p) \<le> 1 * 1 * (3 - 2 * 1)"
    using smooth_mono [of p 1] assms by simp
  then show "p * p * (3 - 2 * p) \<le> 1" by simp
qed

lemma smoothProgress_upper_half:
  assumes "0 \<le> z" "p = roundedValue z" "1 / 2 < p" "p < 1"
  shows "\<exists>r. smoothProgress (Finite p) = Finite r \<and> 0 \<le> r \<and> r \<le> 1
           \<and> \<bar>r - p * p * (3 - 2 * p)\<bar> \<le> 1 / 2 ^ 52"
proof -
  define u :: real where "u = 1 / 2 ^ 56"
  have u: "0 < u" by (simp add: u_def)
  obtain n where n: "p = of_int n / 2 ^ 53" "2 ^ 52 < n" "n < 2 ^ 53"
    using upper_half_mantissa [OF assms(1)] assms(2,3,4) by blast
  have c_exact: "roundedValue (of_int n / 2 ^ 52) = of_int n / 2 ^ 52"
    using n(2,3) by (intro exact_unit_binade) simp_all
  have c_eq: "of_int n / 2 ^ 52 = 2 * p" by (simp add: n(1))
  have c: "roundedValue (2 * p) = 2 * p" using c_exact unfolding c_eq .
  have b_exact: "roundedValue (of_int (3 * 2 ^ 52 - n) / 2 ^ 52) = of_int (3 * 2 ^ 52 - n) / 2 ^ 52"
    using n(2,3) by (intro exact_unit_binade) simp_all
  have b_eq: "of_int (3 * 2 ^ 52 - n) / 2 ^ 52 = 3 - 2 * p" by (simp add: n(1))
  have b: "roundedValue (3 - 2 * p) = 3 - 2 * p" using b_exact unfolding b_eq .
  define a where "a = roundedValue (p * p)"
  define r where "r = roundedValue (a * (3 - 2 * p))"
  have p01: "0 \<le> p" "p \<le> 1" using assms(3,4) by simp_all
  have pp: "0 \<le> p * p" "p * p \<le> 1"
  proof -
    show "0 \<le> p * p" by simp
    have "p * p \<le> 1 * 1" using p01 by (intro mult_mono) simp_all
    then show "p * p \<le> 1" by simp
  qed
  have "\<bar>p * p\<bar> \<le> 2 powi 0" using pp by simp
  then have "\<bar>a - p * p\<bar> \<le> 2 powi (0 - 54)" unfolding a_def by (rule roundedValue_error_bound) simp
  then have a_err: "\<bar>a - p * p\<bar> \<le> 4 * u" by (simp add: u_def)
  have a0: "0 \<le> a" unfolding a_def using pp by (intro roundedValue_nonneg)
  have "a \<le> roundedValue 1" unfolding a_def using pp by (intro roundedValue_mono)
  then have a1: "a \<le> 1" by (simp add: roundedValue_samples)
  have f: "1 \<le> 3 - 2 * p" "3 - 2 * p \<le> 2" using assms(3,4) by simp_all
  have s: "0 \<le> p * p * (3 - 2 * p)" "p * p * (3 - 2 * p) \<le> 1"
    using smooth_bounds [OF p01] by simp_all
  have t: "\<bar>(a - p * p) * (3 - 2 * p)\<bar> \<le> (4 * u) * 2"
    unfolding abs_mult using a_err f u by (intro mult_mono) simp_all
  have "a * (3 - 2 * p) - p * p * (3 - 2 * p) = (a - p * p) * (3 - 2 * p)"
    by (simp add: algebra_simps)
  then have ab_err: "\<bar>a * (3 - 2 * p) - p * p * (3 - 2 * p)\<bar> \<le> 8 * u" using t by simp
  have ab0: "0 \<le> a * (3 - 2 * p)" using a0 f by simp
  have "a * (3 - 2 * p) \<le> 1 + 8 * u" using ab_err s by linarith
  then have ab1: "a * (3 - 2 * p) \<le> 1 + 1 / 2 ^ 53" by (simp add: u_def)
  then have "\<bar>a * (3 - 2 * p)\<bar> \<le> 2 powi 1" using ab0 by simp
  then have "\<bar>r - a * (3 - 2 * p)\<bar> \<le> 2 powi (1 - 54)" unfolding r_def by (rule roundedValue_error_bound) simp
  then have r_err: "\<bar>r - a * (3 - 2 * p)\<bar> \<le> 8 * u" by (simp add: u_def)
  have r0: "0 \<le> r" unfolding r_def using ab0 by (intro roundedValue_nonneg)
  have "r \<le> roundedValue (1 + 1 / 2 ^ 53)" unfolding r_def using ab0 ab1 by (intro roundedValue_mono)
  then have r1: "r \<le> 1" by (simp only: roundedValue_samples)
  have "\<bar>r - p * p * (3 - 2 * p)\<bar> \<le> 16 * u" using r_err ab_err by linarith
  then have err: "\<bar>r - p * p * (3 - 2 * p)\<bar> \<le> 1 / 2 ^ 52" by (simp add: u_def)
  have "smoothProgress (Finite p) = Finite r"
    using p01 f a0 a1 r0 r1
    by (intro smoothProgress_steps [where c = "2 * p" and b = "3 - 2 * p" and a = a])
       (simp_all add: c b a_def r_def)
  then show ?thesis using r0 r1 err by blast
qed

lemma smoothProgress_double:
  assumes "0 \<le> z" "p = min 1 (roundedValue z)"
  shows "\<exists>r. smoothProgress (Finite p) = Finite r \<and> 0 \<le> r \<and> r \<le> 1
           \<and> \<bar>r - p * p * (3 - 2 * p)\<bar> \<le> 1 / 2 ^ 52"
proof -
  have v0: "0 \<le> roundedValue z" using assms(1) by (rule roundedValue_nonneg)
  consider "1 \<le> roundedValue z" | "roundedValue z \<le> 1 / 2"
    | "1 / 2 < roundedValue z" "roundedValue z < 1" by linarith
  then show ?thesis
  proof cases
    case 1
    then have "p = 1" using assms(2) by simp
    then show ?thesis by (simp add: smoothProgress_one)
  next
    case 2
    then have "p = roundedValue z" using assms(2) by simp
    then show ?thesis using smoothProgress_lower_half [of p] v0 2 by simp
  next
    case 3
    then have "p = roundedValue z" using assms(2) by simp
    then show ?thesis using smoothProgress_upper_half [OF assms(1)] 3 by simp
  qed
qed


lemma literal_0_3: "toNumber (3 / 10) = Finite (5404319552844595 / 2 ^ 54)"
  by (simp add: toNumber_def roundedValue_eval)

lemma warmthDistance_cases:
  assumes "0 < headerHeight"
  shows "(\<exists>d. warmthDistance headerHeight = Finite d \<and> 0 < d)
       \<or> warmthDistance headerHeight = PlusInfinity"
proof -
  define x :: real where "x = real headerHeight * (5404319552844595 / 2 ^ 54)"
  have w: "warmthDistance headerHeight = toNumber x"
    by (simp add: warmthDistance_def literal_0_3 x_def)
  have "1 \<le> real headerHeight" using assms by simp
  then have "1 * (5404319552844595 / 2 ^ 54) \<le> real headerHeight * (5404319552844595 / 2 ^ 54 :: real)"
    by (intro mult_right_mono) simp_all
  then have x: "1 / 4 \<le> x" by (simp add: x_def)
  then have xpos: "0 < x" by simp
  have "exponent (1 / 4) \<le> exponent x" using x by (intro exponent_mono) simp_all
  moreover have "exponent (1 / 4) = - 2" by (simp add: exponent_def compute_floorlog)
  ultimately have e: "- 2 \<le> exponent x" by simp
  then have "(2::real) powi (- 2) \<le> 2 powi exponent x" by (simp only: two_powi_le_iff)
  moreover have "2 powi exponent x \<le> roundedValue x"
    using e by (intro roundedValue_lower [OF xpos]) simp
  ultimately have "0 < roundedValue x" by simp
  then show ?thesis by (simp add: w toNumber_def Let_def)
qed

lemma linearProgress_finite:
  assumes "0 \<le> y" "0 < d"
  shows "linearProgress (Finite y) (Finite d) = Finite (min 1 (roundedValue (y / d)))"
proof -
  have v: "0 \<le> roundedValue (y / d)" using assms by (intro roundedValue_nonneg) simp
  have big: "(1::real) \<le> 2 ^ 1024" by simp
  show ?thesis
  proof (cases "\<bar>roundedValue (y / d)\<bar> < 2 ^ 1024")
    case True
    then show ?thesis using assms(2) by (simp add: linearProgress_def toNumber_def Let_def)
  next
    case False
    then have "2 ^ 1024 \<le> roundedValue (y / d)" using v by simp
    then have "1 \<le> roundedValue (y / d)" "0 < roundedValue (y / d)" using big by linarith+
    then show ?thesis using assms(2) False by (simp add: linearProgress_def toNumber_def Let_def)
  qed
qed

lemma linearProgress_form:
  assumes "0 < headerHeight"
  shows "\<exists>k. 0 \<le> k \<and> (\<forall>y. 0 \<le> y \<longrightarrow>
           linearProgress (Finite y) (warmthDistance headerHeight)
             = Finite (min 1 (roundedValue (y * k))))"
  using warmthDistance_cases [OF assms]
proof
  assume "\<exists>d. warmthDistance headerHeight = Finite d \<and> 0 < d"
  then obtain d where d: "warmthDistance headerHeight = Finite d" "0 < d" by blast
  have "linearProgress (Finite y) (warmthDistance headerHeight)
      = Finite (min 1 (roundedValue (y * (1 / d))))" if "0 \<le> y" for y
    using linearProgress_finite [OF that d(2)] by (simp add: d(1))
  moreover have "0 \<le> 1 / d" using d(2) by simp
  ultimately show ?thesis by blast
next
  assume inf: "warmthDistance headerHeight = PlusInfinity"
  have "linearProgress (Finite y) (warmthDistance headerHeight)
      = Finite (min 1 (roundedValue (y * 0)))" for y
    by (simp add: inf linearProgress_def roundedValue_zero)
  then show ?thesis by (intro exI [of _ 0]) simp
qed

lemma easing_range_and_order:
  assumes "0 < headerHeight" "0 \<le> y" "y \<le> y'"
  shows "\<exists>p p' r r'.
      linearProgress (Finite y) (warmthDistance headerHeight) = Finite p
    \<and> linearProgress (Finite y') (warmthDistance headerHeight) = Finite p'
    \<and> smoothProgress (Finite p) = Finite r
    \<and> smoothProgress (Finite p') = Finite r'
    \<and> 0 \<le> p \<and> p \<le> p' \<and> p' \<le> 1
    \<and> 0 \<le> r \<and> r \<le> 1 \<and> 0 \<le> r' \<and> r' \<le> 1
    \<and> r \<le> r' + 1 / 2 ^ 51
    \<and> \<bar>r - p * p * (3 - 2 * p)\<bar> \<le> 1 / 2 ^ 52
    \<and> \<bar>r' - p' * p' * (3 - 2 * p')\<bar> \<le> 1 / 2 ^ 52"
proof -
  obtain k where k: "0 \<le> k"
    "\<And>y. 0 \<le> y \<Longrightarrow> linearProgress (Finite y) (warmthDistance headerHeight)
             = Finite (min 1 (roundedValue (y * k)))"
    using linearProgress_form [OF assms(1)] by blast
  define p where "p = min 1 (roundedValue (y * k))"
  define p' where "p' = min 1 (roundedValue (y' * k))"
  have y': "0 \<le> y'" using assms(2,3) by simp
  have z: "0 \<le> y * k" "y * k \<le> y' * k" "0 \<le> y' * k"
    using assms(2,3) k(1) y' by (simp_all add: mult_right_mono)
  have "roundedValue (y * k) \<le> roundedValue (y' * k)" using z(1,2) by (rule roundedValue_mono)
  then have pp': "p \<le> p'" by (simp add: p_def p'_def min.coboundedI2)
  have p0: "0 \<le> p" using roundedValue_nonneg [OF z(1)] by (simp add: p_def)
  have p1: "p' \<le> 1" by (simp add: p'_def)
  obtain r where r: "smoothProgress (Finite p) = Finite r" "0 \<le> r" "r \<le> 1"
    "\<bar>r - p * p * (3 - 2 * p)\<bar> \<le> 1 / 2 ^ 52"
    using smoothProgress_double [OF z(1) p_def] by blast
  obtain r' where r': "smoothProgress (Finite p') = Finite r'" "0 \<le> r'" "r' \<le> 1"
    "\<bar>r' - p' * p' * (3 - 2 * p')\<bar> \<le> 1 / 2 ^ 52"
    using smoothProgress_double [OF z(3) p'_def] by blast
  have "p * p * (3 - 2 * p) \<le> p' * p' * (3 - 2 * p')" using p0 pp' p1 by (rule smooth_mono)
  then have "r \<le> r' + 2 * (1 / 2 ^ 52)" using r(4) r'(4) by linarith
  then have near: "r \<le> r' + 1 / 2 ^ 51" by simp
  show ?thesis
    using k(2) [OF assms(2)] k(2) [OF y'] r r' p0 pp' p1 near
    unfolding p_def [symmetric] p'_def [symmetric] by blast
qed

text \<open>
  Claim C7 as stated fails in double precision.  With a header of 256 pixels the distance
  is \<open>76.8\<close>; the scroll offsets \<open>72.31493531024826\<close> and the next double above it
  (both are doubles: rounding leaves them as they are) give the linear progress
  \<open>8481185305118635 / 2 ^ 53\<close> and \<open>8481185305118637 / 2 ^ 53\<close>, and the eased progress
  \<open>0.9901669110222179\<close> for the smaller offset and \<open>0.9901669110222178\<close> for the larger
  one: the result decreases by one unit in the last place.
\<close>

theorem scroll_easing_adjacent_offsets_counterexample:
  "toNumber (5088711183071181 / 2 ^ 46) = Finite (5088711183071181 / 2 ^ 46)
   \<and> toNumber (5088711183071182 / 2 ^ 46) = Finite (5088711183071182 / 2 ^ 46)
   \<and> updateWarmth_progress 256 (5088711183071181 / 2 ^ 46) = Finite (8918630663028511 / 2 ^ 53)
   \<and> updateWarmth_progress 256 (5088711183071182 / 2 ^ 46) = Finite (8918630663028510 / 2 ^ 53)
   \<and> updateScrollProgress None (5088711183071181 / 2 ^ 46) = Finite (8918630663028511 / 2 ^ 53)
   \<and> updateScrollProgress None (5088711183071182 / 2 ^ 46) = Finite (8918630663028510 / 2 ^ 53)
   \<and> (\<exists>y y' r r'. 0 \<le> y \<and> y \<le> y'
         \<and> updateWarmth_progress 256 y = Finite r \<and> updateWarmth_progress 256 y' = Finite r'
         \<and> r' < r)"
proof -
  have y: "toNumber (5088711183071181 / 2 ^ 46) = Finite (5088711183071181 / 2 ^ 46)"
    "toNumber (5088711183071182 / 2 ^ 46) = Finite (5088711183071182 / 2 ^ 46)"
    by (simp_all add: toNumber_def roundedValue_eval)
  have d: "warmthDistance 256 = Finite (5404319552844595 / 2 ^ 46)"
    by (simp add: warmthDistance_def toNumber_def roundedValue_eval)
  have p: "linearProgress (Finite (5088711183071181 / 2 ^ 46)) (Finite (5404319552844595 / 2 ^ 46))
      = Finite (8481185305118635 / 2 ^ 53)"
    "linearProgress (Finite (5088711183071182 / 2 ^ 46)) (Finite (5404319552844595 / 2 ^ 46))
      = Finite (8481185305118637 / 2 ^ 53)"
    by (simp_all add: linearProgress_def toNumber_def roundedValue_eval)
  have r: "smoothProgress (Finite (8481185305118635 / 2 ^ 53)) = Finite (8918630663028511 / 2 ^ 53)"
    "smoothProgress (Finite (8481185305118637 / 2 ^ 53)) = Finite (8918630663028510 / 2 ^ 53)"
    by (simp_all add: smoothProgress_def toNumber_def roundedValue_eval)
  have w: "updateWarmth_progress 256 (5088711183071181 / 2 ^ 46) = Finite (8918630663028511 / 2 ^ 53)"
    "updateWarmth_progress 256 (5088711183071182 / 2 ^ 46) = Finite (8918630663028510 / 2 ^ 53)"
    unfolding updateWarmth_progress_def Let_def d p r by (rule refl)+
  have s: "updateScrollProgress None (5088711183071181 / 2 ^ 46) = Finite (8918630663028511 / 2 ^ 53)"
    "updateScrollProgress None (5088711183071182 / 2 ^ 46) = Finite (8918630663028510 / 2 ^ 53)"
    unfolding updateScrollProgress_def Let_def option.case d p r by (rule refl)+
  have "(0::real) \<le> 5088711183071181 / 2 ^ 46 \<and> (5088711183071181 / 2 ^ 46 :: real) \<le> 5088711183071182 / 2 ^ 46
      \<and> (8918630663028510 / 2 ^ 53 :: real) < 8918630663028511 / 2 ^ 53"
    by simp
  then have "\<exists>y y' r r'. 0 \<le> y \<and> y \<le> y'
      \<and> updateWarmth_progress 256 y = Finite r \<and> updateWarmth_progress 256 y' = Finite r' \<and> r' < r"
    using w by blast
  then show ?thesis using y w s by blast
qed

text \<open>
  Claim C7, amended.  For a positive header height and non-negative scroll offsets
  \<open>y \<le> y'\<close>, in double precision: the clamped linear progress \<open>p\<close> is a finite number
  between 0 and 1 and does not decrease from \<open>y\<close> to \<open>y'\<close>; the eased progress
  computed by \<open>updateWarmth\<close> and by \<open>updateScrollProgress\<close> is a finite number between
  0 and 1; it differs from the exact \<open>p * p * (3 - 2 * p)\<close>, which does not decrease, by at most
  \<open>1 / 2 ^ 52\<close>, and so it decreases from \<open>y\<close> to \<open>y'\<close> by at most \<open>1 / 2 ^ 51\<close>.
\<close>

theorem scroll_easing_clamped_monotone_up_to_rounding:
  assumes "0 < headerHeight" "0 \<le> y" "y \<le> y'"
  shows "\<exists>p p' r r'.
      linearProgress (Finite y) (warmthDistance headerHeight) = Finite p
    \<and> linearProgress (Finite y') (warmthDistance headerHeight) = Finite p'
    \<and> updateWarmth_progress headerHeight y = Finite r
    \<and> updateWarmth_progress headerHeight y' = Finite r'
    \<and> updateScrollProgress (Some headerHeight) y = Finite r
    \<and> updateScrollProgress (Some headerHeight) y' = Finite r'
    \<and> updateScrollProgress None y = updateWarmth_progress 256 y
    \<and> 0 \<le> p \<and> p \<le> p' \<and> p' \<le> 1
    \<and> 0 \<le> r \<and> r \<le> 1 \<and> 0 \<le> r' \<and> r' \<le> 1
    \<and> r \<le> r' + 1 / 2 ^ 51
    \<and> \<bar>r - p * p * (3 - 2 * p)\<bar> \<le> 1 / 2 ^ 52
    \<and> \<bar>r' - p' * p' * (3 - 2 * p')\<bar> \<le> 1 / 2 ^ 52"
proof -
  obtain p p' r r' where
    "linearProgress (Finite y) (warmthDistance headerHeight) = Finite p"
    "linearProgress (Finite y') (warmthDistance headerHeight) = Finite p'"
    "smoothProgress (Finite p) = Finite r" "smoothProgress (Finite p') = Finite r'"
    "0 \<le> p" "p \<le> p'" "p' \<le> 1" "0 \<le> r" "r \<le> 1" "0 \<le> r'" "r' \<le> 1"
    "r \<le> r' + 1 / 2 ^ 51"
    "\<bar>r - p * p * (3 - 2 * p)\<bar> \<le> 1 / 2 ^ 52"
    "\<bar>r' - p' * p' * (3 - 2 * p')\<bar> \<le> 1 / 2 ^ 52"
    using easing_range_and_order [OF assms] by blast
  then show ?thesis
    by (simp add: updateWarmth_progress_def updateScrollProgress_def)
qed

theorem scroll_easing_clamped_monotone_up_to_rounding_witness:
  "(0::nat) < 256 \<and> (0::real) \<le> 24 \<and> (24::real) \<le> 48
   \<and> (\<exists>p p' r r'.
      linearProgress (Finite 24) (warmthDistance 256) = Finite p
    \<and> linearProgress (Finite 48) (warmthDistance 256) = Finite p'
    \<and> updateWarmth_progress 256 24 = Finite r
    \<and> updateWarmth_progress 256 48 = Finite r'
    \<and> updateScrollProgress (Some 256) 24 = Finite r
    \<and> updateScrollProgress (Some 256) 48 = Finite r'
    \<and> updateScrollProgress None 24 = updateWarmth_progress 256 24
    \<and> 0 \<le> p \<and> p \<le> p' \<and> p' \<le> 1
    \<and> 0 \<le> r \<and> r \<le> 1 \<and> 0 \<le> r' \<and> r' \<le> 1
    \<and> r \<le> r' + 1 / 2 ^ 51
    \<and> \<bar>r - p * p * (3 - 2 * p)\<bar> \<le> 1 / 2 ^ 52
    \<and> \<bar>r' - p' * p' * (3 - 2 * p')\<bar> \<le> 1 / 2 ^ 52)"
  using scroll_easing_clamped_monotone_up_to_rounding [of 256 24 48] by simp

section \<open>Hex colour parsing\<close>

text \<open>
  A JavaScript string is a sequence of UTF-16 code units.  \<open>String.prototype.trim\<close> and
  the leading-blank skipping of \<open>parseInt\<close> remove the code units of ECMAScript's
  \<open>WhiteSpace\<close> and \<open>LineTerminator\<close> productions.
\<close>

type_synonym js_string = "16 word list"

definition isStrWhiteSpaceChar :: "16 word \<Rightarrow> bool" where
  "isStrWhiteSpaceChar c =
     (let n = unat c
      in n = 0x9 \<or> n = 0xA \<or> n = 0xB \<or> n = 0xC \<or> n = 0xD \<or> n = 0x20 \<or> n = 0xA0
         \<or> n = 0x1680 \<or> (0x2000 \<le> n \<and> n \<le> 0x200A) \<or> n = 0x2028 \<or> n = 0x2029
         \<or> n = 0x202F \<or> n = 0x205F \<or> n = 0x3000 \<or> n = 0xFEFF)"

definition js_trim :: "js_string \<Rightarrow> js_string" where
  "js_trim s = rev (dropWhile isStrWhiteSpaceChar (rev (dropWhile isStrWhiteSpaceChar s)))"

text \<open>\<open>hex.replace('#', '')\<close>: a string pattern replaces its first occurrence only.\<close>

definition replace_hash :: "js_string \<Rightarrow> js_string" where
  "replace_hash s = remove1 0x23 s"

text \<open>\<open>s.slice(i, j)\<close> for \<open>0 \<le> i \<le> j\<close>; both ends are clamped to the length.\<close>

definition slice :: "js_string \<Rightarrow> nat \<Rightarrow> nat \<Rightarrow> js_string" where
  "slice s i j = take (j - i) (drop i s)"

text \<open>The value of a radix-16 digit: \<open>0-9\<close>, \<open>a-f\<close>, \<open>A-F\<close>.\<close>

definition hexDigitValue :: "16 word \<Rightarrow> nat option" where
  "hexDigitValue c =
     (let n = unat c
      in if 0x30 \<le> n \<and> n \<le> 0x39 then Some (n - 0x30)
         else if 0x61 \<le> n \<and> n \<le> 0x66 then Some (n - 0x61 + 10)
         else if 0x41 \<le> n \<and> n \<le> 0x46 then Some (n - 0x41 + 10)
         else None)"

definition isHexDigit :: "16 word \<Rightarrow> bool" where
  "isHexDigit c = (hexDigitValue c \<noteq> None)"

text \<open>
  \<open>parseInt(s, 16)\<close>: skip leading blanks, read one sign, strip one \<open>0x\<close>/\<open>0X\<close>
  prefix, read the longest run of radix-16 digits; \<open>NaN\<close> (here \<open>None\<close>) when that run
  is empty.  The callers pass at most two code units, so the value is exact.
\<close>

definition parseInt16 :: "js_string \<Rightarrow> int option" where
  "parseInt16 inputString =
     (let S = dropWhile isStrWhiteSpaceChar inputString;
          negative = (case S of c # _ \<Rightarrow> c = 0x2D | [] \<Rightarrow> False);
          S1 = (case S of c # rest \<Rightarrow> if c = 0x2B \<or> c = 0x2D then rest else S | [] \<Rightarrow> S);
          S2 = (case S1 of c # d # rest \<Rightarrow>
                  if c = 0x30 \<and> (d = 0x78 \<or> d = 0x58) then rest else S1
                | _ \<Rightarrow> S1);
          Z = takeWhile isHexDigit S2
      in if Z = [] then None
         else let mathInt = int (foldl (\<lambda>acc c. 16 * acc + the (hexDigitValue c)) 0 Z)
              in Some (if negative then - mathInt else mathInt))"

text \<open>\<open>parseHexColor\<close> (the same text in both renderers): components divided by 255.
  A \<open>NaN\<close> component stays \<open>NaN\<close>; the integer \<open>-0\<close> that \<open>parseInt\<close> gives for
  \<open>"-0"\<close> is 0 here.\<close>

definition parseHexColor :: "js_string \<Rightarrow> real option list" where
  "parseHexColor hex0 =
     (let hex = replace_hash (js_trim hex0);
          hex = (if length hex = 3
                 then [hex ! 0, hex ! 0, hex ! 1, hex ! 1, hex ! 2, hex ! 2]
                 else hex)
      in [map_option (\<lambda>n. real_of_int n / 255) (parseInt16 (slice hex 0 2)),
          map_option (\<lambda>n. real_of_int n / 255) (parseInt16 (slice hex 2 4)),
          map_option (\<lambda>n. real_of_int n / 255) (parseInt16 (slice hex 4 6))])"

text \<open>\<open>hexToRgb\<close> (background warmth effect): integer components.\<close>

definition hexToRgb :: "js_string \<Rightarrow> int option list" where
  "hexToRgb hex0 =
     (let hex = replace_hash (js_trim hex0);
          hex = (if length hex = 3
                 then [hex ! 0, hex ! 0, hex ! 1, hex ! 1, hex ! 2, hex ! 2]
                 else hex)
      in [parseInt16 (slice hex 0 2), parseInt16 (slice hex 2 4), parseInt16 (slice hex 4 6)])"

lemma hexDigit_not_blank: "isHexDigit c \<Longrightarrow> \<not> isStrWhiteSpaceChar c"
  by (auto simp: isHexDigit_def hexDigitValue_def isStrWhiteSpaceChar_def Let_def split: if_splits)

lemma hash_not_blank: "\<not> isStrWhiteSpaceChar 0x23"
  by (simp add: isStrWhiteSpaceChar_def)

lemma hexDigit_plain:
  assumes "isHexDigit c"
  shows "c \<noteq> 0x23" "c \<noteq> 0x2B" "c \<noteq> 0x2D" "c \<noteq> 0x78" "c \<noteq> 0x58"
  using assms by (auto simp: isHexDigit_def hexDigitValue_def Let_def split: if_splits)

lemma hexDigitValue_less: "hexDigitValue c = Some v \<Longrightarrow> v < 16"
  by (auto simp: hexDigitValue_def Let_def split: if_splits)

lemma js_trim_keep:
  assumes "\<not> isStrWhiteSpaceChar (hd s)" "\<not> isStrWhiteSpaceChar (last s)"
  shows "js_trim s = s"
proof -
  have "dropWhile isStrWhiteSpaceChar s = s"
    using assms(1) by (simp add: dropWhile_eq_self_iff)
  moreover have "dropWhile isStrWhiteSpaceChar (rev s) = rev s"
    using assms(2) by (simp add: dropWhile_eq_self_iff hd_rev)
  ultimately show ?thesis by (simp add: js_trim_def)
qed

lemma parseInt16_pair:
  assumes "isHexDigit a" "isHexDigit b"
  shows "parseInt16 [a, b] = Some (int (16 * the (hexDigitValue a) + the (hexDigitValue b)))"
  using assms hexDigit_not_blank [of a] hexDigit_plain [of a] hexDigit_plain [of b]
  by (simp add: parseInt16_def)

lemma prepared_short:
  assumes "isHexDigit a" "isHexDigit b" "isHexDigit c"
  shows "replace_hash (js_trim [a, b, c]) = [a, b, c]"
    and "replace_hash (js_trim [0x23, a, b, c]) = [a, b, c]"
    and "replace_hash (js_trim [a, a, b, b, c, c]) = [a, a, b, b, c, c]"
    and "replace_hash (js_trim [0x23, a, a, b, b, c, c]) = [a, a, b, b, c, c]"
  using assms hexDigit_not_blank hash_not_blank hexDigit_plain(1)
  by (simp_all add: js_trim_keep replace_hash_def)

lemma slices_of_six:
  "slice [a, a', b, b', c, c'] 0 2 = [a, a']"
  "slice [a, a', b, b', c, c'] 2 4 = [b, b']"
  "slice [a, a', b, b', c, c'] 4 6 = [c, c']"
  by (simp_all add: slice_def)

lemma hexToRgb_short:
  assumes "isHexDigit a" "isHexDigit b" "isHexDigit c"
  shows "hexToRgb [a, b, c] = [parseInt16 [a, a], parseInt16 [b, b], parseInt16 [c, c]]"
    and "hexToRgb [0x23, a, b, c] = [parseInt16 [a, a], parseInt16 [b, b], parseInt16 [c, c]]"
    and "hexToRgb [a, a, b, b, c, c] = [parseInt16 [a, a], parseInt16 [b, b], parseInt16 [c, c]]"
    and "hexToRgb [0x23, a, a, b, b, c, c]
           = [parseInt16 [a, a], parseInt16 [b, b], parseInt16 [c, c]]"
  using assms by (simp_all add: hexToRgb_def prepared_short slices_of_six)

lemma parseHexColor_short:
  assumes "isHexDigit a" "isHexDigit b" "isHexDigit c"
  shows "parseHexColor [a, b, c] = parseHexColor [a, a, b, b, c, c]"
    and "parseHexColor [0x23, a, b, c] = parseHexColor [0x23, a, a, b, b, c, c]"
  using assms by (simp_all add: parseHexColor_def prepared_short)

text \<open>
  Claim C8.  For hex digits \<open>a\<close>, \<open>b\<close>, \<open>c\<close>, the 3-digit colour \<open>abc\<close> (with or without the
  leading \<open>#\<close>) and its expansion \<open>aabbcc\<close> parse to the same triple, in \<open>parseHexColor\<close>
  and in \<open>hexToRgb\<close>; the triple of \<open>hexToRgb\<close> is 17 times each digit's value.
\<close>

theorem hex_shorthand_roundtrip:
  assumes "isHexDigit a" "isHexDigit b" "isHexDigit c"
  shows "parseHexColor [a, b, c] = parseHexColor [a, a, b, b, c, c]
       \<and> parseHexColor [0x23, a, b, c] = parseHexColor [0x23, a, a, b, b, c, c]
       \<and> hexToRgb [a, b, c] = hexToRgb [a, a, b, b, c, c]
       \<and> hexToRgb [0x23, a, b, c] = hexToRgb [0x23, a, a, b, b, c, c]
       \<and> hexToRgb [0x23, a, b, c]
           = [Some (17 * int (the (hexDigitValue a))), Some (17 * int (the (hexDigitValue b))),
              Some (17 * int (the (hexDigitValue c)))]"
  using assms
  by (simp add: parseHexColor_short hexToRgb_short parseInt16_pair)

theorem hex_shorthand_roundtrip_witness:
  "isHexDigit 0x61 \<and> isHexDigit 0x62 \<and> isHexDigit 0x63
   \<and> parseHexColor [0x23, 0x61, 0x62, 0x63] = parseHexColor [0x23, 0x61, 0x61, 0x62, 0x62, 0x63, 0x63]
   \<and> hexToRgb [0x61, 0x62, 0x63] = hexToRgb [0x61, 0x61, 0x62, 0x62, 0x63, 0x63]
   \<and> hexToRgb [0x23, 0x61, 0x62, 0x63] = [Some 170, Some 187, Some 204]"
proof -
  have h: "isHexDigit 0x61" "isHexDigit 0x62" "isHexDigit 0x63"
    by (simp_all add: isHexDigit_def hexDigitValue_def)
  have v: "hexDigitValue 0x61 = Some 10" "hexDigitValue 0x62 = Some 11"
    "hexDigitValue 0x63 = Some 12"
    by (simp_all add: hexDigitValue_def)
  show ?thesis
    using hex_shorthand_roundtrip [OF h] h v by auto
qed

text \<open>
  Claim C10.  For every string, each component of \<open>parseHexColor\<close> is the corresponding
  component of \<open>hexToRgb\<close> divided by 255 (\<open>NaN\<close> where \<open>hexToRgb\<close> gives \<open>NaN\<close>).
\<close>

theorem parsers_agree_up_to_scale:
  "parseHexColor hex = map (map_option (\<lambda>n. real_of_int n / 255)) (hexToRgb hex)"
  by (simp add: parseHexColor_def hexToRgb_def Let_def)

section \<open>Selection of the dither mode from the URL\<close>

text \<open>
  The values the lookup \<^verbatim>\<open>ditherModes[ditherParam] ?? ditherModes[DEFAULT_DITHER]\<close> can
  produce: a number of the object literal, \<open>undefined\<close>, or a member that the literal
  inherits from \<open>Object.prototype\<close> (its methods, and the prototype object itself through
  the \<open>__proto__\<close> accessor).
\<close>

datatype js_value =
  JSNumber int | JSUndefined | JSNull | JSFunction string | JSObjectPrototype

definition ascii :: "string \<Rightarrow> js_string" where
  "ascii s = map of_char s"

text \<open>The own properties of the literal
  \<^verbatim>\<open>{ gaussian: 0, atkinson: 1, noise: 2, bluenoise: 3, cluster2: 4, cluster4: 5, cluster8: 6, cluster16: 7 }\<close>.\<close>

definition ditherModes :: "(js_string \<times> js_value) list" where
  "ditherModes =
     [(ascii ''gaussian'', JSNumber 0), (ascii ''atkinson'', JSNumber 1),
      (ascii ''noise'', JSNumber 2), (ascii ''bluenoise'', JSNumber 3),
      (ascii ''cluster2'', JSNumber 4), (ascii ''cluster4'', JSNumber 5),
      (ascii ''cluster8'', JSNumber 6), (ascii ''cluster16'', JSNumber 7)]"

text \<open>What reading a property of \<open>Object.prototype\<close> gives (ECMAScript, with Annex B).\<close>

definition objectPrototype :: "(js_string \<times> js_value) list" where
  "objectPrototype =
     [(ascii ''constructor'', JSFunction ''Object''),
      (ascii ''hasOwnProperty'', JSFunction ''hasOwnProperty''),
      (ascii ''isPrototypeOf'', JSFunction ''isPrototypeOf''),
      (ascii ''propertyIsEnumerable'', JSFunction ''propertyIsEnumerable''),
      (ascii ''toLocaleString'', JSFunction ''toLocaleString''),
      (ascii ''toString'', JSFunction ''toString''),
      (ascii ''valueOf'', JSFunction ''valueOf''),
      (ascii ''__defineGetter__'', JSFunction ''__defineGetter__''),
      (ascii ''__defineSetter__'', JSFunction ''__defineSetter__''),
      (ascii ''__lookupGetter__'', JSFunction ''__lookupGetter__''),
      (ascii ''__lookupSetter__'', JSFunction ''__lookupSetter__''),
      (ascii ''__proto__'', JSObjectPrototype)]"

text \<open>\<open>obj[key]\<close> for an object literal: own properties first, then the prototype chain,
  which for a literal is \<open>Object.prototype\<close> and then ends; \<open>undefined\<close> when nothing is found.\<close>

definition getProperty :: "(js_string \<times> js_value) list \<Rightarrow> js_string \<Rightarrow> js_value" where
  "getProperty obj key =
     (case map_of obj key of
        Some v \<Rightarrow> v
      | None \<Rightarrow> (case map_of objectPrototype key of Some v \<Rightarrow> v | None \<Rightarrow> JSUndefined))"

text \<open>\<open>URLSearchParams.get\<close> returns \<open>null\<close> for an absent parameter; as a property key
  \<open>null\<close> is the string \<open>"null"\<close>.\<close>

definition toPropertyKey :: "js_string option \<Rightarrow> js_string" where
  "toPropertyKey p = (case p of None \<Rightarrow> ascii ''null'' | Some s \<Rightarrow> s)"

text \<open>\<open>a ?? b\<close>: \<open>b\<close> only when \<open>a\<close> is \<open>null\<close> or \<open>undefined\<close>.\<close>

definition nullish :: "js_value \<Rightarrow> js_value \<Rightarrow> js_value" where
  "nullish a b = (if a = JSUndefined \<or> a = JSNull then b else a)"

definition selectDitherMode :: "string \<Rightarrow> js_string option \<Rightarrow> js_value" where
  "selectDitherMode DEFAULT_DITHER ditherParam =
     nullish (getProperty ditherModes (toPropertyKey ditherParam))
             (getProperty ditherModes (ascii DEFAULT_DITHER))"

text \<open>The header renderer has \<open>DEFAULT_DITHER = 'atkinson'\<close>, the image effect \<open>'cluster4'\<close>.\<close>

definition header_ditherMode :: "js_string option \<Rightarrow> js_value" where
  "header_ditherMode = selectDitherMode ''atkinson''"

definition image_ditherMode :: "js_string option \<Rightarrow> js_value" where
  "image_ditherMode = selectDitherMode ''cluster4''"

text \<open>\<open>gl.uniform1i(location, v)\<close> converts \<open>v\<close> to a 32-bit integer: a number of
  the table is itself, anything that converts to \<open>NaN\<close> (a function, an object,
  \<open>undefined\<close>) is 0, as is \<open>null\<close>.\<close>

definition uniform1i_value :: "js_value \<Rightarrow> int" where
  "uniform1i_value v = (case v of JSNumber n \<Rightarrow> n | _ \<Rightarrow> 0)"

definition modeNames :: "string list" where
  "modeNames = [''gaussian'', ''atkinson'', ''noise'', ''bluenoise'',
                ''cluster2'', ''cluster4'', ''cluster8'', ''cluster16'']"

lemma named_mode_selected:
  "map (\<lambda>name. header_ditherMode (Some (ascii name))) modeNames = map JSNumber [0, 1, 2, 3, 4, 5, 6, 7]"
  "map (\<lambda>name. image_ditherMode (Some (ascii name))) modeNames = map JSNumber [0, 1, 2, 3, 4, 5, 6, 7]"
  by (simp_all add: header_ditherMode_def image_ditherMode_def selectDitherMode_def
      getProperty_def toPropertyKey_def nullish_def ditherModes_def modeNames_def ascii_def)

lemma unknown_name_default:
  assumes "map_of ditherModes (toPropertyKey p) = None"
    and "map_of objectPrototype (toPropertyKey p) = None"
  shows "header_ditherMode p = JSNumber 1" and "image_ditherMode p = JSNumber 5"
  using assms
  by (simp_all add: header_ditherMode_def image_ditherMode_def selectDitherMode_def
      getProperty_def nullish_def)
    (simp_all add: ditherModes_def ascii_def)

lemma absent_param_default:
  "header_ditherMode None = JSNumber 1" "image_ditherMode None = JSNumber 5"
  by (simp_all add: header_ditherMode_def image_ditherMode_def selectDitherMode_def
      getProperty_def toPropertyKey_def nullish_def ditherModes_def objectPrototype_def ascii_def)

text \<open>
  Claim C3, at the value \<open>constructor\<close> of the parameter: it is none of the eight mode
  names, yet the selected mode is not the default.  The lookup finds the inherited
  \<open>Object.prototype.constructor\<close>, which is neither \<open>null\<close> nor \<open>undefined\<close>, so \<open>??\<close> keeps
  it, and \<open>uniform1i\<close> stores 0 (the Bayer mode) where the header's default is 1 and the
  image effect's is 5.
\<close>

theorem dither_param_inherited_name_not_default:
  "ascii ''constructor'' \<notin> set (map ascii modeNames)
   \<and> header_ditherMode (Some (ascii ''constructor'')) = JSFunction ''Object''
   \<and> image_ditherMode (Some (ascii ''constructor'')) = JSFunction ''Object''
   \<and> uniform1i_value (header_ditherMode (Some (ascii ''constructor''))) = 0
   \<and> uniform1i_value (image_ditherMode (Some (ascii ''constructor''))) = 0
   \<and> uniform1i_value (header_ditherMode (Some (ascii ''bogus''))) = 1
   \<and> uniform1i_value (image_ditherMode (Some (ascii ''bogus''))) = 5"
  by (simp add: header_ditherMode_def image_ditherMode_def selectDitherMode_def
      getProperty_def toPropertyKey_def nullish_def ditherModes_def objectPrototype_def
      uniform1i_value_def modeNames_def ascii_def)

section \<open>The fragment shaders\<close>

text \<open>
  GLSL floats are modelled as reals.  The built-in functions follow the GLSL ES 1.00
  definitions: \<open>fract x = x - floor x\<close> (HOL's \<^const>\<open>frac\<close>), \<open>mod x y = x - y * floor (x / y)\<close>,
  \<open>clamp x a b = min (max x a) b\<close>, \<open>mix a b t = a * (1 - t) + b * t\<close>,
  \<open>step edge x\<close> is 0 for \<open>x < edge\<close> and 1 otherwise, and \<open>smoothstep\<close> is the Hermite
  interpolation of the clamped ratio.  \<open>int(x)\<close> drops the fractional part.
\<close>

type_synonym vec2 = "real \<times> real"
type_synonym vec3 = "real \<times> real \<times> real"

definition glsl_mod :: "real \<Rightarrow> real \<Rightarrow> real" where
  "glsl_mod x y = x - y * of_int \<lfloor>x / y\<rfloor>"

definition clamp :: "real \<Rightarrow> real \<Rightarrow> real \<Rightarrow> real" where
  "clamp x minVal maxVal = min (max x minVal) maxVal"

definition mix :: "real \<Rightarrow> real \<Rightarrow> real \<Rightarrow> real" where
  "mix x y a = x * (1 - a) + y * a"

definition mix3 :: "vec3 \<Rightarrow> vec3 \<Rightarrow> real \<Rightarrow> vec3" where
  "mix3 x y a = (case (x, y) of ((x1, x2, x3), (y1, y2, y3)) \<Rightarrow>
     (mix x1 y1 a, mix x2 y2 a, mix x3 y3 a))"

definition step :: "real \<Rightarrow> real \<Rightarrow> real" where
  "step edge x = (if x < edge then 0 else 1)"

definition smoothstep :: "real \<Rightarrow> real \<Rightarrow> real \<Rightarrow> real" where
  "smoothstep edge0 edge1 x =
     (let t = clamp ((x - edge0) / (edge1 - edge0)) 0 1 in t * t * (3 - 2 * t))"

definition dot3 :: "vec3 \<Rightarrow> vec3 \<Rightarrow> real" where
  "dot3 a b = (case (a, b) of ((a1, a2, a3), (b1, b2, b3)) \<Rightarrow> a1 * b1 + a2 * b2 + a3 * b3)"

definition glsl_int :: "real \<Rightarrow> int" where
  "glsl_int x = (if x < 0 then \<lceil>x\<rceil> else \<lfloor>x\<rfloor>)"

text \<open>\<open>hash\<close>: the scalar \<open>dot(p3, p3.yzx + 33.33)\<close> is added to each component of \<open>p3\<close>.\<close>

definition hash :: "vec2 \<Rightarrow> real" where
  "hash p =
     (let px = frac (fst p * 0.1031); py = frac (snd p * 0.1031); pz = frac (fst p * 0.1031);
          d = dot3 (px, py, pz) (py + 33.33, pz + 33.33, px + 33.33);
          px = px + d; py = py + d; pz = pz + d
      in frac ((px + py) * pz))"

text \<open>The loop \<^verbatim>\<open>for (int i = 0; i < 16; i++) { if (i == idx) return thresholds[i] / 16.0; } return 0.0;\<close>\<close>

definition thresholdLoop :: "real list \<Rightarrow> int \<Rightarrow> real" where
  "thresholdLoop thresholds idx =
     (case find (\<lambda>i. int i = idx) [0..<16] of
        Some i \<Rightarrow> thresholds ! i / 16
      | None \<Rightarrow> 0)"

definition atkinsonThreshold :: "vec2 \<Rightarrow> real" where
  "atkinsonThreshold pos =
     (let x = glsl_int (glsl_mod (fst pos) 4); y = glsl_int (glsl_mod (snd pos) 4);
          idx = y * 4 + x
      in thresholdLoop [0, 12, 3, 15, 8, 4, 11, 7, 2, 14, 1, 13, 10, 6, 9, 5] idx)"

definition clusteredThreshold :: "vec2 \<Rightarrow> real" where
  "clusteredThreshold pos =
     (let x = glsl_int (glsl_mod (fst pos) 2); y = glsl_int (glsl_mod (snd pos) 2);
          idx = y * 2 + x
      in if idx = 0 then 0 else if idx = 1 then 0.5 else if idx = 2 then 0.75 else 0.25)"

definition clustered4Threshold :: "vec2 \<Rightarrow> real" where
  "clustered4Threshold pos =
     (let x = glsl_int (glsl_mod (fst pos) 4); y = glsl_int (glsl_mod (snd pos) 4);
          idx = y * 4 + x
      in thresholdLoop [12, 5, 6, 13, 4, 0, 1, 7, 11, 3, 2, 8, 15, 10, 9, 14] idx)"

text \<open>
  \<open>texture2D(sampler, coord).r\<close> for a \<open>LUMINANCE\<close>/\<open>UNSIGNED_BYTE\<close> texture of
  \<open>w \<times> h\<close> texels with \<open>NEAREST\<close> filtering and \<open>REPEAT\<close> wrapping: the texel under
  the fractional part of the coordinate, as a fraction of 255.  A texture whose upload was
  rejected because the array is shorter than \<open>w * h\<close> is incomplete and samples as 0.
\<close>

definition texture2D_r :: "8 word list \<Rightarrow> nat \<Rightarrow> nat \<Rightarrow> vec2 \<Rightarrow> real" where
  "texture2D_r data w h coord =
     (let i = nat \<lfloor>frac (fst coord) * real w\<rfloor>; j = nat \<lfloor>frac (snd coord) * real h\<rfloor>
      in if length data < w * h then 0 else real (unat (data ! (j * w + i))) / 255)"

record textures =
  u_bayer :: "8 word list"
  u_blueNoise :: "8 word list"
  u_cluster8 :: "8 word list"
  u_cluster16 :: "8 word list"

text \<open>
  The mode dispatch of \<open>main\<close>, the same text in \<open>fsSource\<close> and in \<open>fsSourceImage\<close>: it
  takes the grey value computed so far and yields the grey value and the threshold that
  the rest of \<open>main\<close> compares.
\<close>

definition ditherDispatch :: "textures \<Rightarrow> int \<Rightarrow> vec2 \<Rightarrow> real \<Rightarrow> real \<times> real" where
  "ditherDispatch tex u_ditherMode fragCoord gray =
     (if u_ditherMode = 7 then
        (let gray = gray * 1.08 - 0.02; gray = clamp gray 0 1;
             c16Coord = (glsl_mod (fst fragCoord) 16 / 16, glsl_mod (snd fragCoord) 16 / 16)
         in (gray, texture2D_r (u_cluster16 tex) 16 16 c16Coord))
      else if u_ditherMode = 6 then
        (let gray = gray * 1.1 - 0.03; gray = clamp gray 0 1;
             c8Coord = (glsl_mod (fst fragCoord) 8 / 8, glsl_mod (snd fragCoord) 8 / 8)
         in (gray, texture2D_r (u_cluster8 tex) 8 8 c8Coord))
      else if u_ditherMode = 5 then
        (let gray = gray * 1.15 - 0.05; gray = clamp gray 0 1
         in (gray, clustered4Threshold fragCoord))
      else if u_ditherMode = 4 then
        (let gray = gray * 1.1; gray = clamp gray 0 1
         in (gray, clusteredThreshold fragCoord))
      else if u_ditherMode = 3 then
        (let blueCoord = (glsl_mod (fst fragCoord) 64 / 64, glsl_mod (snd fragCoord) 64 / 64)
         in (gray, texture2D_r (u_blueNoise tex) 64 64 blueCoord))
      else if u_ditherMode = 2 then
        (gray, hash fragCoord)
      else if u_ditherMode = 1 then
        (let gray = gray * 1.2 - 0.1; gray = clamp gray 0 1
         in (gray, atkinsonThreshold fragCoord))
      else
        (let bayerCoord = (glsl_mod (fst fragCoord) 8 / 8, glsl_mod (snd fragCoord) 8 / 8)
         in (gray, texture2D_r (u_bayer tex) 8 8 bayerCoord)))"

text \<open>\<open>main\<close> of \<open>fsSource\<close> (header), up to the dispatch: the grey value of the texel
  \<open>color\<close> of \<open>u_image\<close>, faded towards the bottom of the canvas.\<close>

definition fsSource_gray :: "vec2 \<Rightarrow> real \<Rightarrow> vec3 \<Rightarrow> vec2 \<Rightarrow> real" where
  "fsSource_gray u_resolution u_scroll color fragCoord =
     (let gray = dot3 color (0.299, 0.587, 0.114);
          screenY = snd fragCoord / snd u_resolution;
          fadeHeight = mix 0.4 0.85 u_scroll;
          fade = smoothstep 0 fadeHeight screenY;
          fade = fade * mix 1.0 0.7 (u_scroll * 0.5)
      in gray * fade)"

text \<open>\<open>main\<close> of \<open>fsSource\<close>; the result is the \<open>rgb\<close> part of \<open>gl_FragColor\<close>.\<close>

definition fsSource_main ::
  "textures \<Rightarrow> int \<Rightarrow> vec2 \<Rightarrow> vec3 \<Rightarrow> vec3 \<Rightarrow> real \<Rightarrow> vec3 \<Rightarrow> vec2 \<Rightarrow> vec3" where
  "fsSource_main tex u_ditherMode u_resolution u_bgColor u_fgColor u_scroll color fragCoord =
     (let gray = fsSource_gray u_resolution u_scroll color fragCoord;
          (gray, threshold) = ditherDispatch tex u_ditherMode fragCoord gray;
          dithered = step (threshold + 0.1) gray
      in mix3 u_bgColor u_fgColor dithered)"

definition animatedNoise :: "vec2 \<Rightarrow> real \<Rightarrow> real" where
  "animatedNoise p t =
     (let n1 = hash (fst p + of_int \<lfloor>t\<rfloor>, snd p + of_int \<lfloor>t\<rfloor>);
          n2 = hash (fst p + of_int \<lfloor>t\<rfloor> + 1, snd p + of_int \<lfloor>t\<rfloor> + 1);
          blend = frac t
      in mix n1 n2 (smoothstep 0 1 blend))"

text \<open>The threshold that \<open>main\<close> of \<open>fsSourceImage\<close> compares the grey value with.\<close>

definition animatedThreshold :: "real \<Rightarrow> vec2 \<Rightarrow> real \<Rightarrow> real \<Rightarrow> real" where
  "animatedThreshold u_time fragCoord gray threshold =
     (let noiseCoord = (fst fragCoord * 0.15, snd fragCoord * 0.15);
          noise = animatedNoise noiseCoord u_time - 0.5;
          flicker = 0.08 * sin (u_time * 2 + hash (fst fragCoord * 0.2, snd fragCoord * 0.2) * 6.28);
          effectIntensity = smoothstep 0.05 0.3 gray
      in threshold + 0.1 + (noise * 0.15 + flicker) * effectIntensity)"

text \<open>\<open>main\<close> of \<open>fsSourceImage\<close> (inline images), up to the dispatch: the grey value,
  inverted in light mode and faded at the four edges.\<close>

definition fsSourceImage_gray :: "vec2 \<Rightarrow> real \<Rightarrow> vec3 \<Rightarrow> vec2 \<Rightarrow> real" where
  "fsSourceImage_gray u_resolution u_invert color fragCoord =
     (let gray = dot3 color (0.299, 0.587, 0.114);
          gray = mix gray (1 - gray) u_invert;
          uv = (fst fragCoord / fst u_resolution, snd fragCoord / snd u_resolution);
          edgeNoise = hash (fst fragCoord * 0.5, snd fragCoord * 0.5) * 0.15;
          fadeLeft = smoothstep 0 (0.1 + edgeNoise) (fst uv);
          fadeRight = smoothstep 0 (0.1 + edgeNoise) (1 - fst uv);
          fadeBottom = smoothstep 0 (0.1 + edgeNoise) (snd uv);
          fadeTop = smoothstep 0 (0.1 + edgeNoise) (1 - snd uv);
          fade = fadeLeft * fadeRight * fadeBottom * fadeTop
      in gray * fade)"

definition fsSourceImage_main ::
  "textures \<Rightarrow> int \<Rightarrow> vec2 \<Rightarrow> vec3 \<Rightarrow> vec3 \<Rightarrow> real \<Rightarrow> real \<Rightarrow> vec3 \<Rightarrow> vec2 \<Rightarrow> vec3" where
  "fsSourceImage_main tex u_ditherMode u_resolution u_bgColor u_fgColor u_invert u_time color fragCoord =
     (let gray = fsSourceImage_gray u_resolution u_invert color fragCoord;
          (gray, threshold) = ditherDispatch tex u_ditherMode fragCoord gray;
          dithered = step (animatedThreshold u_time fragCoord gray threshold) gray
      in mix3 u_bgColor u_fgColor dithered)"

text \<open>The gain and bias of the modes whose branch adjusts the grey value; the branches of
  modes 0, 2 and 3 have no such statement.\<close>

definition preAdjustment :: "int \<Rightarrow> (real \<times> real) option" where
  "preAdjustment m =
     (if m = 7 then Some (1.08, - 0.02)
      else if m = 6 then Some (1.1, - 0.03)
      else if m = 5 then Some (1.15, - 0.05)
      else if m = 4 then Some (1.1, 0)
      else if m = 1 then Some (1.2, - 0.1)
      else None)"

lemma glsl_mod_range:
  assumes "0 < y"
  shows "0 \<le> glsl_mod x y" and "glsl_mod x y < y"
proof -
  let ?q = "real_of_int \<lfloor>x / y\<rfloor>"
  have "?q \<le> x / y" by (rule of_int_floor_le)
  then have "?q * y \<le> x"
    using assms pos_le_divide_eq [of y ?q x] by blast
  then show "0 \<le> glsl_mod x y" by (simp add: glsl_mod_def mult.commute)
  have "x / y < ?q + 1" by linarith
  then have "x < (?q + 1) * y"
    using assms pos_divide_less_eq [of y x "?q + 1"] by blast
  then show "glsl_mod x y < y" by (simp add: glsl_mod_def algebra_simps)
qed

lemma glsl_int_range:
  assumes "0 \<le> r" "r < real k"
  shows "0 \<le> glsl_int r" and "glsl_int r < int k"
  using assms by (simp_all add: glsl_int_def floor_less_iff)

lemma cell_index_range:
  assumes "0 < k"
  shows "0 \<le> glsl_int (glsl_mod x (real k))" and "glsl_int (glsl_mod x (real k)) < int k"
  using glsl_int_range [of "glsl_mod x (real k)" k] glsl_mod_range [of "real k" x] assms
  by simp_all

lemma find_upt_index:
  assumes "0 \<le> idx" "idx < int n"
  shows "find (\<lambda>i. int i = idx) [0..<n] = Some (nat idx)"
proof -
  have "find (\<lambda>i. int i = idx) [0..<n] = Some (nat idx) \<longleftrightarrow>
        (\<exists>i<length [0..<n]. int ([0..<n] ! i) = idx \<and> nat idx = [0..<n] ! i
            \<and> (\<forall>j<i. int ([0..<n] ! j) \<noteq> idx))"
    by (simp only: find_Some_iff)
  moreover have "\<exists>i<length [0..<n]. int ([0..<n] ! i) = idx \<and> nat idx = [0..<n] ! i
            \<and> (\<forall>j<i. int ([0..<n] ! j) \<noteq> idx)"
    using assms by (intro exI [of _ "nat idx"]) auto
  ultimately show ?thesis by blast
qed

lemma thresholdLoop_range:
  assumes "length ts = 16" "\<forall>t\<in>set ts. t \<in> real ` {0..<16}" "0 \<le> idx" "idx < 16"
  shows "thresholdLoop ts idx \<in> (\<lambda>k. real k / 16) ` {0..<16}"
proof -
  have "find (\<lambda>i. int i = idx) [0..<16] = Some (nat idx)"
    using find_upt_index [of idx 16] assms(3,4) by simp
  then have "thresholdLoop ts idx = ts ! nat idx / 16"
    by (simp add: thresholdLoop_def)
  moreover have "ts ! nat idx \<in> set ts"
    using assms(1,3,4) by (intro nth_mem) simp
  ultimately show ?thesis using assms(2) by auto
qed

lemma grid4_index:
  "0 \<le> glsl_int (glsl_mod y 4) * 4 + glsl_int (glsl_mod x 4)"
  "glsl_int (glsl_mod y 4) * 4 + glsl_int (glsl_mod x 4) < 16"
  using cell_index_range [of 4 x] cell_index_range [of 4 y] by simp_all

lemma atkinsonThreshold_values: "atkinsonThreshold pos \<in> (\<lambda>k. real k / 16) ` {0..<16}"
  unfolding atkinsonThreshold_def Let_def
  by (rule thresholdLoop_range) (simp_all add: grid4_index)


lemma clustered4Threshold_values: "clustered4Threshold pos \<in> (\<lambda>k. real k / 16) ` {0..<16}"
  unfolding clustered4Threshold_def Let_def
  by (rule thresholdLoop_range) (simp_all add: grid4_index)

lemma sixteenth_unit:
  assumes "t \<in> (\<lambda>k. real k / 16) ` {0..<16}"
  shows "0 \<le> t" and "t < 1"
  using assms by auto

lemma clusteredThreshold_values: "clusteredThreshold pos \<in> {0, 0.25, 0.5, 0.75}"
  by (simp add: clusteredThreshold_def Let_def)

lemma hash_range: "0 \<le> hash p" "hash p < 1"
  by (simp_all add: hash_def Let_def frac_lt_1)

lemma texture2D_r_byte: "\<exists>b :: 8 word. texture2D_r data w h coord = real (unat b) / 255"
proof (cases "length data < w * h")
  case True
  then have "texture2D_r data w h coord = real (unat (0 :: 8 word)) / 255"
    by (simp add: texture2D_r_def Let_def)
  then show ?thesis by blast
next
  case False
  then show ?thesis by (auto simp: texture2D_r_def Let_def)
qed

lemma byte_unit: "0 \<le> real (unat (b :: 8 word)) / 255" "real (unat (b :: 8 word)) / 255 \<le> 1"
proof -
  have "unat b < 2 ^ 8" using unsigned_less [of b] by simp
  then have "unat b \<le> 255" by simp
  then have "real (unat b) \<le> real 255" by (rule of_nat_mono)
  then show "real (unat b) / 255 \<le> 1" by (simp del: of_nat_unat)
  have "real 0 \<le> real (unat b)" by (rule of_nat_mono) simp
  then show "0 \<le> real (unat b) / 255" by (simp del: of_nat_unat)
qed

lemma texture2D_r_range: "0 \<le> texture2D_r data w h coord" "texture2D_r data w h coord \<le> 1"
proof -
  obtain b :: "8 word" where eq: "texture2D_r data w h coord = real (unat b) / 255"
    using texture2D_r_byte by blast
  show "0 \<le> texture2D_r data w h coord" unfolding eq by (rule byte_unit)
  show "texture2D_r data w h coord \<le> 1" unfolding eq by (rule byte_unit)
qed

lemma ditherDispatch_threshold_range:
  "0 \<le> snd (ditherDispatch tex m pos g)" "snd (ditherDispatch tex m pos g) \<le> 1"
  using sixteenth_unit [OF atkinsonThreshold_values [of pos]]
    sixteenth_unit [OF clustered4Threshold_values [of pos]]
    clusteredThreshold_values [of pos] hash_range [of pos]
  by (auto simp: ditherDispatch_def Let_def texture2D_r_range)


text \<open>
  Claim C1.  Whatever the mode, the pixel coordinate and the contents of the four threshold
  textures, the threshold chosen by the dispatch lies between 0 and 1: the Atkinson and
  clustered 4x4 functions return a sixteenth \<open>k / 16\<close> with \<open>k < 16\<close>, the clustered 2x2
  function one of 0, 0.25, 0.5, 0.75, the hash a fractional part, and a texture a byte
  divided by 255.
\<close>

theorem dither_threshold_in_unit_interval:
  "0 \<le> snd (ditherDispatch tex mode fragCoord gray)
   \<and> snd (ditherDispatch tex mode fragCoord gray) \<le> 1
   \<and> atkinsonThreshold fragCoord \<in> (\<lambda>k. real k / 16) ` {0..<16}
   \<and> clustered4Threshold fragCoord \<in> (\<lambda>k. real k / 16) ` {0..<16}
   \<and> clusteredThreshold fragCoord \<in> {0, 0.25, 0.5, 0.75}
   \<and> 0 \<le> hash fragCoord \<and> hash fragCoord < 1
   \<and> (\<exists>b :: 8 word. texture2D_r data w h coord = real (unat b) / 255)"
  using ditherDispatch_threshold_range [of tex mode fragCoord gray]
    atkinsonThreshold_values [of fragCoord] clustered4Threshold_values [of fragCoord]
    clusteredThreshold_values [of fragCoord] hash_range [of fragCoord]
    texture2D_r_byte [of data w h coord]
  by blast

lemma mix3_ends: "mix3 x y 0 = x" "mix3 x y 1 = y"
  by (cases x; cases y; simp add: mix3_def mix_def)+

lemma step_cases: "mix3 bg fg (step edge x) = (if x < edge then bg else fg)"
  by (simp add: step_def mix3_ends)

lemma ditherDispatch_gray:
  "fst (ditherDispatch tex m pos g)
     = (case preAdjustment m of Some (gain, bias) \<Rightarrow> clamp (g * gain + bias) 0 1 | None \<Rightarrow> g)"
  by (simp add: ditherDispatch_def preAdjustment_def Let_def)

lemma fsSource_main_step:
  "fsSource_main tex m res bg fg scroll color pos
     = (let (gray, threshold) = ditherDispatch tex m pos (fsSource_gray res scroll color pos)
        in if gray < threshold + 0.1 then bg else fg)"
  by (simp add: fsSource_main_def Let_def step_cases split: prod.splits)

lemma fsSourceImage_main_step:
  "fsSourceImage_main tex m res bg fg invert time color pos
     = (let (gray, threshold) = ditherDispatch tex m pos (fsSourceImage_gray res invert color pos)
        in if gray < animatedThreshold time pos gray threshold then bg else fg)"
  by (simp add: fsSourceImage_main_def Let_def step_cases split: prod.splits)

lemma smoothstep_one:
  assumes "0 < e" "e \<le> x"
  shows "smoothstep 0 e x = 1"
proof -
  have "1 \<le> x / e" using assms by simp
  then have "clamp ((x - 0) / (e - 0)) 0 1 = 1" by (simp add: clamp_def)
  then show ?thesis by (simp add: smoothstep_def)
qed

lemma image_gray_centre:
  "fsSourceImage_gray (9, 5) 0 (0.95, 0.95, 0.95) (4.5, 2.5) = 0.95"
proof -
  define e where "e = 0.1 + hash (4.5 * 0.5, 2.5 * 0.5) * 0.15"
  have e: "0 < e" "e \<le> 0.5"
    using hash_range [of "(4.5 * 0.5, 2.5 * 0.5)"] by (simp_all add: e_def)
  have "smoothstep 0 e 0.5 = 1" using e by (intro smoothstep_one) simp_all
  then show ?thesis
    by (simp add: fsSourceImage_gray_def Let_def dot3_def mix_def e_def)
qed


lemma hash_samples:
  "0.8 < hash (4.5, 2.5)" "hash (4.5, 2.5) < 0.85"
  "0.9 < hash (4.5 * 0.15, 2.5 * 0.15)"
  "0 < hash (4.5 * 0.2, 2.5 * 0.2)" "hash (4.5 * 0.2, 2.5 * 0.2) * 6.28 < 2"
  by (simp_all add: hash_def Let_def dot3_def frac_def)

lemma animatedNoise_start: "animatedNoise p 0 = hash p"
  by (simp add: animatedNoise_def Let_def smoothstep_def clamp_def mix_def)

lemma animatedThreshold_sample:
  "0.95 < animatedThreshold 0 (4.5, 2.5) 0.95 (hash (4.5, 2.5))"
proof -
  define t where "t = hash (4.5, 2.5)"
  define n where "n = hash (4.5 * 0.15, 2.5 * 0.15)"
  define s where "s = sin (hash (4.5 * 0.2, 2.5 * 0.2) * 6.28)"
  have "0 < s"
    unfolding s_def using hash_samples(4,5) by (intro sin_gt_zero_02) simp_all
  moreover have "0.9 < n" "0.8 < t"
    unfolding n_def t_def using hash_samples(1,3) by simp_all
  moreover have "smoothstep 0.05 0.3 0.95 = 1"
    by (simp add: smoothstep_def clamp_def)
  then have "animatedThreshold 0 (4.5, 2.5) 0.95 t = t + 0.1 + ((n - 0.5) * 0.15 + 0.08 * s)"
    by (simp add: animatedThreshold_def Let_def animatedNoise_start n_def s_def)
  ultimately show ?thesis
    unfolding t_def [symmetric] by simp argo
qed

lemma image_main_sample:
  "fsSourceImage_main tex 2 (9, 5) (0, 0, 0) (1, 1, 1) 0 0 (0.95, 0.95, 0.95) (4.5, 2.5) = (0, 0, 0)"
proof -
  have "ditherDispatch tex 2 (4.5, 2.5) 0.95 = (0.95, hash (4.5, 2.5))"
    by (simp add: ditherDispatch_def)
  then show ?thesis
    unfolding fsSourceImage_main_step image_gray_centre
    using animatedThreshold_sample by (simp only: Let_def prod.case if_True)
qed

lemma header_style_sample:
  "(let (gray, threshold) = ditherDispatch tex 2 (4.5, 2.5) 0.95
    in mix3 (0, 0, 0) (1, 1, 1) (step (threshold + 0.1) gray)) = (1, 1, 1)"
proof -
  have "ditherDispatch tex 2 (4.5, 2.5) 0.95 = (0.95, hash (4.5, 2.5))"
    by (simp add: ditherDispatch_def)
  moreover have "\<not> 0.95 < hash (4.5, 2.5) + 0.1"
    using hash_samples(2) by simp
  ultimately show ?thesis
    by (simp only: Let_def prod.case step_cases if_False)
qed


lemma clamp_unit: "0 \<le> clamp x 0 1" "clamp x 0 1 \<le> 1"
  by (simp_all add: clamp_def)

lemma smoothstep_range: "0 \<le> smoothstep e0 e1 x" "smoothstep e0 e1 x \<le> 1"
  using smooth_bounds [of "clamp ((x - e0) / (e1 - e0)) 0 1"] clamp_unit
  by (simp_all add: smoothstep_def Let_def)

lemma mix_between:
  assumes "0 \<le> a" "a \<le> 1" "lo \<le> x" "x \<le> hi" "lo \<le> y" "y \<le> hi"
  shows "lo \<le> mix x y a" and "mix x y a \<le> hi"
proof -
  have "lo * (1 - a) \<le> x * (1 - a)" "lo * a \<le> y * a"
    using assms by (simp_all add: mult_right_mono)
  then have "lo * (1 - a) + lo * a \<le> mix x y a" by (simp add: mix_def)
  then show "lo \<le> mix x y a" by (simp add: algebra_simps)
  have "x * (1 - a) \<le> hi * (1 - a)" "y * a \<le> hi * a"
    using assms by (simp_all add: mult_right_mono)
  then have "mix x y a \<le> hi * (1 - a) + hi * a" by (simp add: mix_def)
  then show "mix x y a \<le> hi" by (simp add: algebra_simps)
qed

lemma animatedNoise_range: "0 \<le> animatedNoise p t" "animatedNoise p t \<le> 1"
proof -
  let ?n1 = "hash (fst p + of_int \<lfloor>t\<rfloor>, snd p + of_int \<lfloor>t\<rfloor>)"
  let ?n2 = "hash (fst p + of_int \<lfloor>t\<rfloor> + 1, snd p + of_int \<lfloor>t\<rfloor> + 1)"
  have n: "0 \<le> ?n1" "?n1 \<le> 1" "0 \<le> ?n2" "?n2 \<le> 1"
    using hash_range less_imp_le by blast+
  show "0 \<le> animatedNoise p t"
    unfolding animatedNoise_def Let_def
    by (rule mix_between(1) [OF smoothstep_range n])
  show "animatedNoise p t \<le> 1"
    unfolding animatedNoise_def Let_def
    by (rule mix_between(2) [OF smoothstep_range n])
qed

lemma animatedThreshold_near:
  "\<bar>animatedThreshold time pos gray threshold - (threshold + 0.1)\<bar> \<le> 0.155"
proof -
  define noise where "noise = animatedNoise (fst pos * 0.15, snd pos * 0.15) time - 0.5"
  define s where "s = sin (time * 2 + hash (fst pos * 0.2, snd pos * 0.2) * 6.28)"
  define e where "e = smoothstep 0.05 0.3 gray"
  define d where "d = noise * 0.15 + 0.08 * s"
  have eq: "animatedThreshold time pos gray threshold - (threshold + 0.1) = d * e"
    by (simp add: animatedThreshold_def Let_def noise_def s_def e_def d_def)
  have "\<bar>noise\<bar> \<le> 0.5"
    using animatedNoise_range [of "(fst pos * 0.15, snd pos * 0.15)" time]
    unfolding noise_def by simp argo
  moreover have "\<bar>s\<bar> \<le> 1" by (simp add: s_def)
  ultimately have d: "\<bar>d\<bar> \<le> 0.155" unfolding d_def by simp argo
  have e: "0 \<le> e" "e \<le> 1" using smoothstep_range by (simp_all add: e_def)
  have "\<bar>d * e\<bar> = \<bar>d\<bar> * e" using e by (simp add: abs_mult)
  also have "\<dots> \<le> \<bar>d\<bar> * 1" using e by (intro mult_left_mono) simp_all
  finally show ?thesis using d eq by simp
qed

lemma animatedThreshold_dark:
  "animatedThreshold time pos (min gray 0.05) threshold = threshold + 0.1"
proof -
  have "smoothstep 0.05 0.3 (min gray 0.05) = 0"
    by (simp add: smoothstep_def clamp_def Let_def min_def divide_nonpos_pos)
  then show ?thesis by (simp add: animatedThreshold_def Let_def)
qed


text \<open>
  Claim C4 as stated fails in two places.  The branches of modes 0 (Bayer), 2 (hash noise)
  and 3 (blue noise) hand the grey value on unchanged: at 0.25 and at 0.75 it comes out as
  it went in, where mode 1 gives 0.2 and 0.8.  And \<open>main\<close> of \<open>fsSourceImage\<close> does not
  compare with the threshold plus 0.1 alone: for the pixel at \<open>(4.5, 2.5)\<close> of a 9 by 5
  canvas, mode 2, time 0, no inversion and a texel of grey 0.95, it emits the background
  colour, where the comparison with threshold plus 0.1 selects the foreground colour.
\<close>

theorem pre_adjustment_fixed_offset_counterexample:
  "\<forall>tex.
     fst (ditherDispatch tex 0 (4.5, 2.5) 0.25) = 0.25 \<and> fst (ditherDispatch tex 0 (4.5, 2.5) 0.75) = 0.75
   \<and> fst (ditherDispatch tex 2 (4.5, 2.5) 0.25) = 0.25 \<and> fst (ditherDispatch tex 2 (4.5, 2.5) 0.75) = 0.75
   \<and> fst (ditherDispatch tex 3 (4.5, 2.5) 0.25) = 0.25 \<and> fst (ditherDispatch tex 3 (4.5, 2.5) 0.75) = 0.75
   \<and> fst (ditherDispatch tex 1 (4.5, 2.5) 0.25) = 0.2 \<and> fst (ditherDispatch tex 1 (4.5, 2.5) 0.75) = 0.8
   \<and> fsSourceImage_main tex 2 (9, 5) (0, 0, 0) (1, 1, 1) 0 0 (0.95, 0.95, 0.95) (4.5, 2.5) = (0, 0, 0)
   \<and> fsSourceImage_gray (9, 5) 0 (0.95, 0.95, 0.95) (4.5, 2.5) = 0.95
   \<and> (let (gray, threshold) = ditherDispatch tex 2 (4.5, 2.5) 0.95
       in mix3 (0, 0, 0) (1, 1, 1) (step (threshold + 0.1) gray)) = (1, 1, 1)"
proof (intro allI conjI)
  fix tex
  show "fsSourceImage_main tex 2 (9, 5) (0, 0, 0) (1, 1, 1) 0 0 (0.95, 0.95, 0.95) (4.5, 2.5) = (0, 0, 0)"
    by (rule image_main_sample)
  show "fsSourceImage_gray (9, 5) 0 (0.95, 0.95, 0.95) (4.5, 2.5) = 0.95"
    by (rule image_gray_centre)
  show "(let (gray, threshold) = ditherDispatch tex 2 (4.5, 2.5) 0.95
       in mix3 (0, 0, 0) (1, 1, 1) (step (threshold + 0.1) gray)) = (1, 1, 1)"
    by (rule header_style_sample)
qed (simp_all add: ditherDispatch_gray preAdjustment_def clamp_def)

text \<open>
  Claim C4, amended.  In the dispatch of both shaders, modes 7, 6, 5, 4 and 1 replace the
  grey value by \<open>clamp (gray * gain + bias) 0 1\<close> with the gain and bias of
  \<^const>\<open>preAdjustment\<close>, and every other mode (0, 2 and 3 among the eight) leaves it
  unchanged.  The header shader then emits the background colour when the grey value is
  below the threshold plus 0.1 and the foreground colour otherwise.  The image shader
  compares with \<^const>\<open>animatedThreshold\<close> instead: the threshold plus 0.1 plus an animated
  term of magnitude at most 0.155, which is absent for grey values up to 0.05.
\<close>

theorem dispatch_adjustment_and_comparison:
  "fst (ditherDispatch tex m pos g)
     = (case preAdjustment m of Some (gain, bias) \<Rightarrow> clamp (g * gain + bias) 0 1 | None \<Rightarrow> g)
   \<and> map preAdjustment [0, 1, 2, 3, 4, 5, 6, 7]
     = [None, Some (1.2, - 0.1), None, None, Some (1.1, 0), Some (1.15, - 0.05),
        Some (1.1, - 0.03), Some (1.08, - 0.02)]
   \<and> fsSource_main tex m res bg fg scroll color pos
     = (let (gray, threshold) = ditherDispatch tex m pos (fsSource_gray res scroll color pos)
        in if gray < threshold + 0.1 then bg else fg)
   \<and> fsSourceImage_main tex m res bg fg invert time color pos
     = (let (gray, threshold) = ditherDispatch tex m pos (fsSourceImage_gray res invert color pos)
        in if gray < animatedThreshold time pos gray threshold then bg else fg)
   \<and> \<bar>animatedThreshold time pos gray threshold - (threshold + 0.1)\<bar> \<le> 0.155
   \<and> animatedThreshold time pos (min gray 0.05) threshold = threshold + 0.1"
proof (intro conjI)
  show "map preAdjustment [0, 1, 2, 3, 4, 5, 6, 7]
     = [None, Some (1.2, - 0.1), None, None, Some (1.1, 0), Some (1.15, - 0.05),
        Some (1.1, - 0.03), Some (1.08, - 0.02)]"
    by (simp add: preAdjustment_def)
qed (rule ditherDispatch_gray fsSource_main_step fsSourceImage_main_step
      animatedThreshold_near animatedThreshold_dark)+

section \<open>The clustered-dot threshold texture\<close>

text \<open>
  \<open>generateClusteredDot(size)\<close>.  The distance is the real square root; the sort is
  \<open>Array.prototype.sort\<close> with the comparator \<open>a.dist - b.dist\<close>, a stable sort by
  distance, which is what \<^const>\<open>sort_key\<close> computes.  The quotient
  \<open>(rank / n) * 255\<close> is taken over the reals; for the one size the page uses, 16, \<open>n\<close> is
  256 and the double-precision value is the same.  A \<open>Uint8Array\<close> ignores a write outside
  its bounds, as a list update in HOL does.
\<close>

definition centerDist :: "nat \<Rightarrow> nat \<Rightarrow> nat \<Rightarrow> real" where
  "centerDist size' x y =
     (let center = (real size' - 1) / 2; dx = real x - center; dy = real y - center
      in sqrt (dx * dx + dy * dy))"

text \<open>The array \<open>distances\<close> after the two nested loops: entries \<open>{idx, dist}\<close>,
  row by row.\<close>

definition clusteredDistances :: "nat \<Rightarrow> (nat \<times> real) list" where
  "clusteredDistances size' =
     concat (map (\<lambda>y. map (\<lambda>x. (y * size' + x, centerDist size' x y)) [0..<size']) [0..<size'])"

text \<open>\<open>Math.floor((rank / distances.length) * 255)\<close>, stored in a byte.\<close>

definition rankValue :: "nat \<Rightarrow> nat \<Rightarrow> 8 word" where
  "rankValue rank n = of_nat (nat \<lfloor>real rank / real n * 255\<rfloor>)"

text \<open>The loop \<^verbatim>\<open>for (rank = 0; rank < distances.length; rank++) pixels[distances[rank].idx] = ...\<close>\<close>

definition assignRanks :: "(nat \<times> real) list \<Rightarrow> 8 word list \<Rightarrow> 8 word list" where
  "assignRanks distances pixels =
     foldl (\<lambda>pixels rank. pixels[fst (distances ! rank) := rankValue rank (length distances)])
       pixels [0..<length distances]"

definition generateClusteredDot :: "nat \<Rightarrow> 8 word list" where
  "generateClusteredDot size' =
     (let pixels = replicate (size' * size') 0;
          distances = sort_key snd (clusteredDistances size')
      in assignRanks distances pixels)"

lemma generateClusteredDot_3:
  "generateClusteredDot 3 = [141, 28, 170, 56, 0, 85, 198, 113, 226]"
  by (simp add: generateClusteredDot_def assignRanks_def rankValue_def clusteredDistances_def
      centerDist_def upt_rec numeral_eq_Suc)

lemma row_indices: "map (\<lambda>x. k + x) [0..<n] = [k..<k + n]"
  by (induction n) simp_all

lemma grid_indices:
  "concat (map (\<lambda>y. map (\<lambda>x. y * n + x) [0..<n]) [0..<m]) = [0..<m * n]"
proof (induction m)
  case 0
  show ?case by simp
next
  case (Suc m)
  have "[0..<Suc m * n] = [0..<m * n] @ [m * n..<m * n + n]"
    using upt_add_eq_append [of 0 "m * n" n] by (simp add: add.commute)
  with Suc show ?case by (simp add: row_indices)
qed

lemma clusteredDistances_indices: "map fst (clusteredDistances n) = [0..<n * n]"
proof -
  have "map fst (clusteredDistances n)
      = concat (map (\<lambda>y. map (\<lambda>x. y * n + x) [0..<n]) [0..<n])"
    by (simp add: clusteredDistances_def map_concat comp_def)
  then show ?thesis by (simp add: grid_indices)
qed

lemma clusteredDistances_member:
  assumes "x < n" "y < n"
  shows "(y * n + x, centerDist n x y) \<in> set (clusteredDistances n)"
proof -
  have "(y * n + x, centerDist n x y) \<in> (\<lambda>x. (y * n + x, centerDist n x y)) ` {0..<n}"
    using assms(1) by simp
  then show ?thesis
    using assms(2) by (auto simp: clusteredDistances_def)
qed

lemma assignRanks_prefix:
  assumes "distinct (map fst ds)" "\<forall>e\<in>set ds. fst e < length init" "k \<le> length ds"
  shows "length (foldl (\<lambda>px r. px[fst (ds ! r) := v r]) init [0..<k]) = length init
       \<and> (\<forall>r<k. foldl (\<lambda>px r. px[fst (ds ! r) := v r]) init [0..<k] ! fst (ds ! r) = v r)"
  using assms(3)
proof (induction k)
  case 0
  show ?case by simp
next
  case (Suc k)
  let ?px = "foldl (\<lambda>px r. px[fst (ds ! r) := v r]) init [0..<k]"
  from Suc have len: "length ?px = length init"
    and old: "\<And>r. r < k \<Longrightarrow> ?px ! fst (ds ! r) = v r"
    by simp_all
  have step: "foldl (\<lambda>px r. px[fst (ds ! r) := v r]) init [0..<Suc k] = ?px[fst (ds ! k) := v k]"
    by simp
  have k: "k < length ds" using Suc.prems by simp
  then have inb: "fst (ds ! k) < length ?px"
    using assms(2) len by (metis nth_mem)
  have "?px[fst (ds ! k) := v k] ! fst (ds ! r) = v r" if "r < k" for r
  proof -
    have "map fst ds ! k \<noteq> map fst ds ! r"
      using assms(1) k that nth_eq_iff_index_eq [of "map fst ds" k r] by simp
    then have "fst (ds ! k) \<noteq> fst (ds ! r)" using k that by simp
    then show ?thesis using old [OF that] by simp
  qed
  moreover have "?px[fst (ds ! k) := v k] ! fst (ds ! k) = v k"
    using inb by simp
  ultimately have "\<forall>r<Suc k. ?px[fst (ds ! k) := v k] ! fst (ds ! r) = v r"
    using less_Suc_eq by auto
  then show ?case unfolding step using len by simp
qed

lemma assignRanks_nth:
  assumes "distinct (map fst ds)" "\<forall>e\<in>set ds. fst e < length init" "r < length ds"
  shows "assignRanks ds init ! fst (ds ! r) = rankValue r (length ds)"
  using assignRanks_prefix [OF assms(1,2) order_refl, of "\<lambda>r. rankValue r (length ds)"] assms(3)
  by (simp add: assignRanks_def)


lemma rankValue_unat:
  assumes "r < n"
  shows "unat (rankValue r n) = nat \<lfloor>real r / real n * 255\<rfloor>"
proof -
  define q where "q = real r / real n * 255"
  have "real r / real n < 1" using assms by simp
  then have "real r / real n * 255 < 1 * 255" by (intro mult_strict_right_mono) simp_all
  then have "q < 255" by (simp only: mult_1 q_def)
  then have "\<lfloor>q\<rfloor> < 255" by (simp add: floor_less_iff)
  then have "nat \<lfloor>q\<rfloor> < 256" by linarith
  then have "nat \<lfloor>q\<rfloor> < 2 ^ LENGTH(8)" by simp
  then have "unat (of_nat (nat \<lfloor>q\<rfloor>) :: 8 word) = nat \<lfloor>q\<rfloor>"
    by (simp add: unat_of_nat)
  then show ?thesis
    unfolding rankValue_def q_def .
qed

lemma rankValue_mono:
  assumes "r1 \<le> r2" "r2 < n"
  shows "rankValue r1 n \<le> rankValue r2 n"
proof -
  have "real r1 / real n * 255 \<le> real r2 / real n * 255"
    using assms by (simp add: divide_right_mono)
  then have "nat \<lfloor>real r1 / real n * 255\<rfloor> \<le> nat \<lfloor>real r2 / real n * 255\<rfloor>"
    by (intro nat_mono floor_mono)
  then show ?thesis
    using assms by (simp add: word_le_nat_alt rankValue_unat)
qed

lemma pixel_rank:
  assumes "x < n" "y < n"
  shows "\<exists>r<n * n. sort_key snd (clusteredDistances n) ! r = (y * n + x, centerDist n x y)
           \<and> generateClusteredDot n ! (y * n + x) = rankValue r (n * n)"
proof -
  let ?ds = "sort_key snd (clusteredDistances n)"
  have len: "length ?ds = n * n"
    using clusteredDistances_indices [of n] by (metis length_map length_sort length_upt diff_zero)
  have "map fst (clusteredDistances n) = [0..<n * n]" by (rule clusteredDistances_indices)
  then have d0: "distinct (map fst (clusteredDistances n))"
    and b0: "\<forall>e\<in>set (clusteredDistances n). fst e < n * n"
    by (simp, metis atLeastLessThan_iff imageI list.set_map set_upt)
  have dist: "distinct (map fst ?ds)"
    using d0 by (metis distinct_map distinct_sort set_sort)
  have bound: "\<forall>e\<in>set ?ds. fst e < length (replicate (n * n) (0 :: 8 word))"
    using b0 by simp
  have "(y * n + x, centerDist n x y) \<in> set ?ds"
    using clusteredDistances_member [OF assms] by simp
  then obtain r where r: "r < length ?ds" "?ds ! r = (y * n + x, centerDist n x y)"
    unfolding in_set_conv_nth by blast
  have "assignRanks ?ds (replicate (n * n) 0) ! fst (?ds ! r) = rankValue r (length ?ds)"
    by (rule assignRanks_nth [OF dist bound r(1)])
  then have "generateClusteredDot n ! (y * n + x) = rankValue r (n * n)"
    using r(2) len by (simp add: generateClusteredDot_def)
  then show ?thesis using r len by auto
qed

lemma closer_not_above:
  assumes "x1 < n" "y1 < n" "x2 < n" "y2 < n"
    and "centerDist n x1 y1 < centerDist n x2 y2"
  shows "generateClusteredDot n ! (y1 * n + x1) \<le> generateClusteredDot n ! (y2 * n + x2)"
proof -
  let ?ds = "sort_key snd (clusteredDistances n)"
  obtain r1 where r1: "r1 < n * n" "?ds ! r1 = (y1 * n + x1, centerDist n x1 y1)"
    "generateClusteredDot n ! (y1 * n + x1) = rankValue r1 (n * n)"
    using pixel_rank [OF assms(1,2)] by blast
  obtain r2 where r2: "r2 < n * n" "?ds ! r2 = (y2 * n + x2, centerDist n x2 y2)"
    "generateClusteredDot n ! (y2 * n + x2) = rankValue r2 (n * n)"
    using pixel_rank [OF assms(3,4)] by blast
  have len: "length ?ds = n * n"
    using clusteredDistances_indices [of n] by (metis length_map length_sort length_upt diff_zero)
  have sorted: "sorted (map snd ?ds)" by (rule sorted_sort_key)
  have "r1 \<le> r2"
  proof (rule ccontr)
    assume "\<not> r1 \<le> r2"
    then have "r2 \<le> r1" by simp
    then have "map snd ?ds ! r2 \<le> map snd ?ds ! r1"
      using sorted r1(1) len by (intro sorted_nth_mono) simp_all
    then have "centerDist n x2 y2 \<le> centerDist n x1 y1"
      using r1 r2 len by simp
    then show False using assms(5) by simp
  qed
  then show ?thesis
    using rankValue_mono [of r1 r2 "n * n"] r1 r2 by simp
qed


text \<open>
  Claim C9.  In the array that \<open>generateClusteredDot\<close> returns, a pixel of the cell that is
  strictly closer to the centre \<open>(size - 1) / 2\<close> than another has a threshold that is at
  most the other's.  The sorted array is ordered by distance, and the threshold of a pixel
  is \<open>floor (rank / n * 255)\<close> for the position \<open>rank\<close> of the pixel's entry in it.
\<close>

theorem clustered_dot_ranked_by_distance:
  assumes "x1 < size'" "y1 < size'" "x2 < size'" "y2 < size'"
    and "centerDist size' x1 y1 < centerDist size' x2 y2"
  shows "generateClusteredDot size' ! (y1 * size' + x1) \<le> generateClusteredDot size' ! (y2 * size' + x2)
       \<and> sorted (map snd (sort_key snd (clusteredDistances size')))
       \<and> (\<exists>rank. rank < size' * size' \<and>
             sort_key snd (clusteredDistances size') ! rank = (y1 * size' + x1, centerDist size' x1 y1)
           \<and> generateClusteredDot size' ! (y1 * size' + x1) = rankValue rank (size' * size')
           \<and> unat (rankValue rank (size' * size'))
               = nat \<lfloor>real rank / real (size' * size') * 255\<rfloor>)"
proof -
  obtain rank where "rank < size' * size'"
    "sort_key snd (clusteredDistances size') ! rank = (y1 * size' + x1, centerDist size' x1 y1)"
    "generateClusteredDot size' ! (y1 * size' + x1) = rankValue rank (size' * size')"
    using pixel_rank [OF assms(1,2)] by blast
  moreover from this have "unat (rankValue rank (size' * size'))
      = nat \<lfloor>real rank / real (size' * size') * 255\<rfloor>"
    by (intro rankValue_unat)
  ultimately show ?thesis
    using closer_not_above [OF assms] sorted_sort_key [of snd "clusteredDistances size'"]
    by blast
qed

theorem clustered_dot_ranked_by_distance_witness:
  "(1 :: nat) < 3 \<and> (0 :: nat) < 3 \<and> centerDist 3 1 1 < centerDist 3 0 0
   \<and> generateClusteredDot 3 ! (1 * 3 + 1) \<le> generateClusteredDot 3 ! (0 * 3 + 0)
   \<and> generateClusteredDot 3 ! 4 = 0 \<and> generateClusteredDot 3 ! 0 = 141"
proof -
  have d: "centerDist 3 1 1 < centerDist 3 0 0"
    by (simp add: centerDist_def)
  have "generateClusteredDot 3 ! (1 * 3 + 1) \<le> generateClusteredDot 3 ! (0 * 3 + 0)"
    using clustered_dot_ranked_by_distance [of 1 3 1 0 0, OF _ _ _ _ d] by simp
  then show ?thesis using d by (simp add: generateClusteredDot_3)
qed

section \<open>The threshold textures of the page\<close>

text \<open>The literal arrays \<open>bayer\<close> and \<open>clustered8\<close>, and \<open>clustered16\<close>.\<close>

definition bayer :: "8 word list" where
  "bayer =
     [0, 128, 32, 160, 8, 136, 40, 168, 192, 64, 224, 96, 200, 72, 232, 104,
      48, 176, 16, 144, 56, 184, 24, 152, 240, 112, 208, 80, 248, 120, 216, 88,
      12, 140, 44, 172, 4, 132, 36, 164, 204, 76, 236, 108, 196, 68, 228, 100,
      60, 188, 28, 156, 52, 180, 20, 148, 252, 124, 220, 92, 244, 116, 212, 84]"

definition clustered8 :: "8 word list" where
  "clustered8 =
     [252, 220, 184, 144, 140, 180, 216, 248, 224, 164, 128, 84, 80, 124, 160, 212,
      188, 132, 60, 28, 24, 56, 120, 176, 148, 88, 32, 4, 0, 20, 72, 136,
      152, 92, 36, 8, 12, 44, 96, 156, 192, 116, 64, 40, 48, 76, 128, 196,
      228, 168, 108, 68, 88, 112, 172, 232, 255, 236, 200, 160, 164, 204, 240, 255]"

definition clustered16 :: "8 word list" where
  "clustered16 = generateClusteredDot 16"

text \<open>The four textures as both surfaces upload them; the blue-noise array comes from
  \<open>generateBlueNoise(64)\<close>, whose floating-point arithmetic is not modelled, and is a
  parameter.\<close>

definition pageTextures :: "8 word list \<Rightarrow> textures" where
  "pageTextures blueNoiseTexture =
     \<lparr>u_bayer = bayer, u_blueNoise = blueNoiseTexture, u_cluster8 = clustered8,
      u_cluster16 = clustered16\<rparr>"

lemma length_assignRanks: "length (assignRanks ds pixels) = length pixels"
proof -
  have "length (foldl (\<lambda>px r. px[fst (ds ! r) := v r]) pixels rs) = length pixels" for v rs
    by (induction rs arbitrary: pixels) simp_all
  then show ?thesis by (simp add: assignRanks_def)
qed

lemma length_generateClusteredDot: "length (generateClusteredDot n) = n * n"
  by (simp add: generateClusteredDot_def length_assignRanks)

lemma page_texture_lengths:
  "length bayer = 8 * 8" "length clustered8 = 8 * 8" "length clustered16 = 16 * 16"
  by (simp_all add: bayer_def clustered8_def clustered16_def length_generateClusteredDot)

text \<open>With the coordinates the shaders pass, a sample is the entry of the pixel's cell.\<close>

lemma texture2D_r_cell:
  assumes "0 < w" "0 < h" "w * h \<le> length data"
  shows "texture2D_r data w h (glsl_mod x (real w) / real w, glsl_mod y (real h) / real h)
       = real (unat (data ! (nat \<lfloor>glsl_mod y (real h)\<rfloor> * w + nat \<lfloor>glsl_mod x (real w)\<rfloor>))) / 255"
proof -
  have cell: "frac (glsl_mod z (real k) / real k) * real k = glsl_mod z (real k)" if "0 < k" for z k
  proof -
    have "0 \<le> glsl_mod z (real k) / real k" "glsl_mod z (real k) / real k < 1"
      using glsl_mod_range [of "real k" z] that by simp_all
    then have "frac (glsl_mod z (real k) / real k) = glsl_mod z (real k) / real k"
      by (simp add: frac_eq)
    then show ?thesis using that by simp
  qed
  show ?thesis
    using assms by (simp only: texture2D_r_def Let_def fst_conv snd_conv cell) simp
qed


section \<open>Lifecycle of the header surface\<close>

text \<open>
  The header script keeps one module variable, \<open>currentState\<close>, and each call of \<open>init\<close>
  creates closures over variables of its own (\<open>animationId\<close>, \<open>currentSource\<close>,
  \<open>videoPlaying\<close>, a \<open>video\<close> and a \<open>fallbackImage\<close> element).  The model numbers the
  calls of \<open>init\<close> that got as far as creating a surface: instance \<open>i\<close> is the \<open>i\<close>-th
  such call, and a handler is identified by its instance.  The page state holds what the
  browser has registered: the \<open>document\<close> and \<open>window\<close> listeners, the connected
  mutation observers, the \<open>load\<close>/\<open>loadeddata\<close> listeners on the media elements, the
  \<open>play()\<close> promises of \<open>tryPlayVideo\<close> that have not settled, and the pending
  \<open>requestAnimationFrame\<close> callbacks with their ids (ids are positive, so an id is
  truthy).  All instances use the one element \<open>#header-canvas\<close>: \<open>getElementById\<close>
  finds it while it is connected, and \<open>getContext\<close> returns its one WebGL context every
  time, lost or not.  Media that fired \<open>load\<close> or \<open>loadeddata\<close> has non-zero
  dimensions, so \<open>setupCanvas\<close> does not return early.
\<close>

datatype source = VideoSource | ImageSource

text \<open>The variables one call of \<open>init\<close> closes over.\<close>

record closure_vars =
  animationId :: "nat option"
  currentSource :: "source option"
  videoPlaying :: bool

text \<open>The object stored in \<open>currentState\<close>; \<open>owner\<close> is the instance whose handlers and
  observer it holds, \<open>state_loseContext\<close> whether the \<open>WEBGL_lose_context\<close> extension
  was there.\<close>

record surface_state =
  owner :: nat
  state_animationId :: "nat option"
  state_loseContext :: bool

datatype doc_event = Click | Touchstart | Keydown | DocScroll

record page =
  currentState :: "surface_state option"
  instances :: "closure_vars list"
  documentListeners :: "(doc_event \<times> nat) list"
  windowResize :: "nat list"
  windowScroll :: "nat list"
  observing :: "nat list"
  mediaListeners :: "nat list"
  playRequests :: "nat list"
  frames :: "(nat \<times> nat) list"
  nextFrame :: nat
  contextLost :: bool
  canvasConnected :: bool
  webgl :: bool
  loseContextExtension :: bool

text \<open>The four \<open>document.removeEventListener\<close> calls for \<open>onFirstInteraction\<close>.\<close>

definition removeFirstInteraction :: "nat \<Rightarrow> (doc_event \<times> nat) list \<Rightarrow> (doc_event \<times> nat) list" where
  "removeFirstInteraction i ls =
     removeAll (DocScroll, i) (removeAll (Keydown, i) (removeAll (Touchstart, i) (removeAll (Click, i) ls)))"

text \<open>\<open>cleanup\<close>: cancel the frame recorded in \<open>currentState\<close>, remove the six
  listeners, disconnect the observer, lose the context, reset \<open>currentState\<close>.\<close>

definition cleanup :: "page \<Rightarrow> page" where
  "cleanup p =
     (case currentState p of
        None \<Rightarrow> p
      | Some st \<Rightarrow>
          p\<lparr>frames := (case state_animationId st of
                          Some frame \<Rightarrow> filter (\<lambda>f. fst f \<noteq> frame) (frames p)
                        | None \<Rightarrow> frames p),
            documentListeners := removeFirstInteraction (owner st) (documentListeners p),
            windowResize := removeAll (owner st) (windowResize p),
            windowScroll := removeAll (owner st) (windowScroll p),
            observing := removeAll (owner st) (observing p),
            contextLost := (contextLost p \<or> state_loseContext st),
            currentState := None\<rparr>)"

text \<open>
  \<open>init\<close>: \<open>cleanup\<close>, then (canvas and context permitting) a new instance: the
  observer is connected, \<open>currentState\<close> is stored, and the listeners are added.  On a lost
  context \<open>gl.createShader\<close> returns \<open>null\<close> and \<open>gl.shaderSource(null, source)\<close>
  throws a \<open>TypeError\<close>, which ends \<open>init\<close> inside the first \<open>createShader\<close>, before
  anything is registered.
\<close>

datatype completion = Normal | TypeError

definition init :: "page \<Rightarrow> completion \<times> page" where
  "init p0 =
     (let p = cleanup p0
      in if \<not> canvasConnected p then (Normal, p)
         else if \<not> webgl p then (Normal, p)
         else if contextLost p then (TypeError, p)
         else
           let i = length (instances p)
           in (Normal,
               p\<lparr>instances := instances p
                    @ [\<lparr>animationId = None, currentSource = None, videoPlaying = False\<rparr>],
                 observing := observing p @ [i],
                 currentState := Some \<lparr>owner = i, state_animationId = None,
                                       state_loseContext = loseContextExtension p\<rparr>,
                 documentListeners := documentListeners p
                    @ [(Click, i), (Touchstart, i), (Keydown, i), (DocScroll, i)],
                 windowScroll := windowScroll p @ [i],
                 mediaListeners := mediaListeners p @ [i],
                 windowResize := windowResize p @ [i]\<rparr>))"

definition setupCanvas :: "nat \<Rightarrow> source \<Rightarrow> page \<Rightarrow> page" where
  "setupCanvas i src p =
     p\<lparr>instances := (instances p)[i := (instances p ! i)\<lparr>currentSource := Some src\<rparr>]\<rparr>"

text \<open>\<open>render\<close> of instance \<open>i\<close>: tear down when the canvas has left the document;
  otherwise draw and, for a playing video, request the next frame and record its id in
  the instance and in whatever \<open>currentState\<close> holds.\<close>

definition render :: "nat \<Rightarrow> page \<Rightarrow> page" where
  "render i p =
     (if \<not> canvasConnected p then cleanup p
      else if currentSource (instances p ! i) = Some VideoSource \<and> videoPlaying (instances p ! i) then
        (let frame = nextFrame p
         in p\<lparr>frames := frames p @ [(frame, i)],
              nextFrame := frame + 1,
              instances := (instances p)[i := (instances p ! i)\<lparr>animationId := Some frame\<rparr>],
              currentState :=
                map_option (\<lambda>st. st\<lparr>state_animationId := Some frame\<rparr>) (currentState p)\<rparr>)
      else p)"

text \<open>\<open>onFirstInteraction\<close>: \<open>tryPlayVideo\<close> (a \<open>play()\<close> promise unless the video
  already plays), then the four listeners are removed.\<close>

definition onFirstInteraction :: "nat \<Rightarrow> page \<Rightarrow> page" where
  "onFirstInteraction i p =
     (let p = (if videoPlaying (instances p ! i) then p
               else p\<lparr>playRequests := playRequests p @ [i]\<rparr>)
      in p\<lparr>documentListeners := removeFirstInteraction i (documentListeners p)\<rparr>)"

text \<open>The \<open>then\<close> callback of \<open>tryPlayVideo\<close>; \<open>ready\<close> is \<open>video.readyState >= 2\<close>.\<close>

definition tryPlayFulfilled :: "nat \<Rightarrow> bool \<Rightarrow> page \<Rightarrow> page" where
  "tryPlayFulfilled i ready p0 =
     (let p = p0\<lparr>instances := (instances p0)[i := (instances p0 ! i)\<lparr>videoPlaying := True\<rparr>]\<rparr>;
          p = (if currentSource (instances p ! i) = Some ImageSource \<and> ready
               then setupCanvas i VideoSource p else p)
      in if animationId (instances p ! i) = None then render i p else p)"

text \<open>The \<open>loadeddata\<close> listener of the video calls \<open>play()\<close>; this is the moment its
  promise settles.  \<open>imageReady\<close> is \<open>fallbackImage.complete && fallbackImage.naturalWidth\<close>.\<close>

definition loadedDataPlay :: "nat \<Rightarrow> bool \<Rightarrow> bool \<Rightarrow> page \<Rightarrow> page" where
  "loadedDataPlay i fulfilled imageReady p =
     (if fulfilled then
        render i (setupCanvas i VideoSource
          (p\<lparr>instances := (instances p)[i := (instances p ! i)\<lparr>videoPlaying := True\<rparr>]\<rparr>))
      else if imageReady then render i (setupCanvas i ImageSource p)
      else p)"

text \<open>The \<open>load\<close> listener of the fallback image.\<close>

definition fallbackLoad :: "nat \<Rightarrow> page \<Rightarrow> page" where
  "fallbackLoad i p =
     (if currentSource (instances p ! i) = None then render i (setupCanvas i ImageSource p) else p)"

text \<open>What \<open>updateScroll\<close> and the dark-mode observer do to the lifecycle: a forced
  \<open>render\<close> when the fallback image is shown and the canvas is connected.\<close>

definition redrawImage :: "nat \<Rightarrow> page \<Rightarrow> page" where
  "redrawImage i p =
     (if currentSource (instances p ! i) = Some ImageSource \<and> canvasConnected p then render i p else p)"

text \<open>The browser runs a pending animation-frame callback.\<close>

definition animationFrame :: "nat \<Rightarrow> page \<Rightarrow> page" where
  "animationFrame frame p =
     (case find (\<lambda>f. fst f = frame) (frames p) of
        None \<Rightarrow> p
      | Some f \<Rightarrow> render (snd f) (p\<lparr>frames := filter (\<lambda>f. fst f \<noteq> frame) (frames p)\<rparr>))"

text \<open>What can happen to the page: \<open>init\<close> is called, an event is dispatched to the
  listeners registered for it, a promise settles, the canvas leaves the document.\<close>

datatype event =
    Init
  | DocumentEvent doc_event
  | Scroll
  | ClassMutation
  | AnimationFrame nat
  | FallbackLoad nat
  | LoadedDataPlay nat bool bool
  | TryPlay nat bool bool
  | CanvasRemoved

fun fire :: "event \<Rightarrow> page \<Rightarrow> page" where
  "fire Init p = snd (init p)"
| "fire (DocumentEvent e) p =
     fold onFirstInteraction (map snd (filter (\<lambda>l. fst l = e) (documentListeners p))) p"
| "fire Scroll p = fold redrawImage (windowScroll p) p"
| "fire ClassMutation p = fold redrawImage (observing p) p"
| "fire (AnimationFrame frame) p = animationFrame frame p"
| "fire (FallbackLoad i) p = (if i \<in> set (mediaListeners p) then fallbackLoad i p else p)"
| "fire (LoadedDataPlay i fulfilled imageReady) p =
     (if i \<in> set (mediaListeners p) then loadedDataPlay i fulfilled imageReady p else p)"
| "fire (TryPlay i fulfilled ready) p =
     (if i \<in> set (playRequests p) then
        (let p = p\<lparr>playRequests := remove1 i (playRequests p)\<rparr>
         in if fulfilled then tryPlayFulfilled i ready p else p)
      else p)"
| "fire CanvasRemoved p = p\<lparr>canvasConnected := False\<rparr>"

definition run :: "event list \<Rightarrow> page \<Rightarrow> page" where
  "run events p = fold fire events p"

text \<open>An instance is active when one of its \<open>document\<close> or \<open>window\<close> listeners is
  registered, its observer is connected, or one of its animation callbacks is pending.\<close>

definition surfaceActive :: "page \<Rightarrow> nat \<Rightarrow> bool" where
  "surfaceActive p i =
     (i \<in> snd ` set (documentListeners p) \<or> i \<in> set (windowResize p) \<or> i \<in> set (windowScroll p)
      \<or> i \<in> set (observing p) \<or> i \<in> snd ` set (frames p))"

text \<open>The page before the script runs: the canvas is in the document; \<open>gl\<close> says
  whether \<open>getContext('webgl')\<close> gives a context, \<open>ext\<close> whether that context has the
  \<open>WEBGL_lose_context\<close> extension.\<close>

definition initialPage :: "bool \<Rightarrow> bool \<Rightarrow> page" where
  "initialPage gl ext =
     \<lparr>currentState = None, instances = [], documentListeners = [], windowResize = [],
      windowScroll = [], observing = [], mediaListeners = [], playRequests = [], frames = [],
      nextFrame = 1, contextLost = False, canvasConnected = True, webgl = gl,
      loseContextExtension = ext\<rparr>"













































text \<open>
  The hypothesis of the theorem delimits what the model can reach beyond the script: with
  two entries to \<open>init\<close> and no extension the second entry creates a second instance; the
  first instance is inactive then, and becomes active again only through the \<open>loadeddata\<close>
  listener of its video, which \<open>cleanup\<close> leaves registered (see claim C6).  With the
  extension the second entry ends in the \<open>TypeError\<close> of \<open>createShader\<close>.
\<close>

lemma reinit_without_extension_stale_listener:
  "(let p = run [Init, Init, LoadedDataPlay 0 True False] (initialPage True False)
    in surfaceActive p 0 \<and> surfaceActive p 1
       \<and> frames p = [(1, 0)]
       \<and> \<not> contextLost p
       \<and> currentState p = Some \<lparr>owner = 1, state_animationId = Some 1, state_loseContext = False\<rparr>
       \<and> documentListeners p = [(Click, 1), (Touchstart, 1), (Keydown, 1), (DocScroll, 1)]
       \<and> frames (run [AnimationFrame 1] p) = [(2, 0)])
   \<and> (let p = run [Init, Init] (initialPage True False)
      in \<not> surfaceActive p 0 \<and> surfaceActive p 1 \<and> mediaListeners p = [0, 1])
   \<and> (let p = run [Init, Init] (initialPage True True)
      in \<not> surfaceActive p 0 \<and> \<not> surfaceActive p 1 \<and> length (instances p) = 1
         \<and> contextLost p \<and> fst (init (run [Init] (initialPage True True))) = TypeError)"
  by (simp add: run_def initialPage_def init_def cleanup_def render_def setupCanvas_def
      loadedDataPlay_def animationFrame_def removeFirstInteraction_def surfaceActive_def Let_def)

section \<open>Lifecycle of an image surface\<close>

text \<open>
  \<open>setup\<close> of \<open>initDitheredImage\<close> creates a canvas of its own and closes over
  \<open>didCleanup\<close>, \<open>animationId\<close>, \<open>observer\<close>, \<open>darkModeObserver\<close> and \<open>isVisible\<close>.
  Beside these variables the state records what the browser holds for the surface: whether
  each observer is observing, whether the \<open>resize\<close> and \<open>scroll\<close> listeners are
  registered on \<open>window\<close>, the pending animation frames, whether the context is lost,
  whether the canvas carries \<open>__darkDitherCleanup\<close>, and whether it is connected.
  \<open>loseContext\<close> says that the extension was available, \<open>REDUCED_MOTION\<close> is the media
  query read at load.
\<close>

record image_surface =
  didCleanup :: bool
  img_animationId :: "nat option"
  observer :: bool
  darkModeObserver :: bool
  isVisible :: bool
  intersectionObserving :: bool
  mutationObserving :: bool
  resizeListener :: bool
  scrollListener :: bool
  img_frames :: "nat list"
  img_nextFrame :: nat
  img_contextLost :: bool
  cleanupProperty :: bool
  isConnected :: bool
  loseContext :: bool
  REDUCED_MOTION :: bool

text \<open>\<open>cleanup\<close> of the image surface, guarded by \<open>didCleanup\<close>.\<close>

definition image_cleanup :: "image_surface \<Rightarrow> image_surface" where
  "image_cleanup s =
     (if didCleanup s then s
      else s\<lparr>didCleanup := True,
             img_frames := (case img_animationId s of
                              Some frame \<Rightarrow> removeAll frame (img_frames s)
                            | None \<Rightarrow> img_frames s),
             img_animationId := None,
             intersectionObserving := (if observer s then False else intersectionObserving s),
             observer := False,
             mutationObserving := (if darkModeObserver s then False else mutationObserving s),
             darkModeObserver := False,
             resizeListener := False,
             scrollListener := False,
             img_contextLost := (img_contextLost s \<or> loseContext s),
             cleanupProperty := False\<rparr>)"

text \<open>\<open>animationId = requestAnimationFrame(render)\<close>\<close>

definition requestFrame :: "image_surface \<Rightarrow> image_surface" where
  "requestFrame s =
     s\<lparr>img_frames := img_frames s @ [img_nextFrame s],
       img_animationId := Some (img_nextFrame s),
       img_nextFrame := img_nextFrame s + 1\<rparr>"

text \<open>\<open>render\<close>: the throttled and the drawing path request the next frame under the same
  condition, so they are one branch here.\<close>

definition image_render :: "image_surface \<Rightarrow> image_surface" where
  "image_render s =
     (if \<not> isConnected s then image_cleanup s
      else if isVisible s \<and> \<not> REDUCED_MOTION s then requestFrame s
      else s)"

text \<open>
  \<open>setup\<close>, from the creation of the context on.  \<open>gl\<close>: a WebGL context was obtained;
  \<open>hasParent\<close>: \<open>img.parentNode\<close> is not null; \<open>parentConnected\<close>: that parent is in the
  document, so the canvas that replaces the image is connected.  The first \<open>render\<close> runs
  before the observers and the \<open>window\<close> listeners are registered.  The result is
  \<open>None\<close> when no surface is created.
\<close>

definition image_setup :: "bool \<Rightarrow> bool \<Rightarrow> bool \<Rightarrow> bool \<Rightarrow> bool \<Rightarrow> image_surface option" where
  "image_setup gl hasParent parentConnected ext reduced =
     (if \<not> gl then None
      else
        let s = \<lparr>didCleanup = False, img_animationId = None, observer = False,
                 darkModeObserver = False, isVisible = True, intersectionObserving = False,
                 mutationObserving = False, resizeListener = False, scrollListener = False,
                 img_frames = [], img_nextFrame = 1, img_contextLost = False,
                 cleanupProperty = True, isConnected = False, loseContext = ext,
                 REDUCED_MOTION = reduced\<rparr>
        in if \<not> hasParent then Some (image_cleanup s)
           else
             let s = s\<lparr>isConnected := parentConnected\<rparr>;
                 s = image_render s;
                 s = s\<lparr>observer := True, intersectionObserving := True\<rparr>;
                 s = s\<lparr>darkModeObserver := True, mutationObserving := True\<rparr>;
                 s = s\<lparr>resizeListener := True\<rparr>;
                 s = s\<lparr>scrollListener := True\<rparr>
             in Some s)"

text \<open>\<open>onScroll\<close> and the dark-mode observer: a forced render when no frame id is held.\<close>

definition redrawIfIdle :: "image_surface \<Rightarrow> image_surface" where
  "redrawIfIdle s = (if img_animationId s = None \<and> isConnected s then image_render s else s)"

text \<open>The callback of the intersection observer.\<close>

definition intersectionCallback :: "bool \<Rightarrow> image_surface \<Rightarrow> image_surface" where
  "intersectionCallback isIntersecting s0 =
     (if \<not> isConnected s0 then image_cleanup s0
      else
        let s = s0\<lparr>isVisible := isIntersecting\<rparr>
        in if isVisible s \<and> \<not> REDUCED_MOTION s \<and> img_animationId s = None then requestFrame s
           else if \<not> isVisible s \<and> img_animationId s \<noteq> None then
             s\<lparr>img_frames := removeAll (the (img_animationId s)) (img_frames s),
               img_animationId := None\<rparr>
           else s)"

text \<open>What can happen to an image surface.  \<open>BeforeSwap\<close> is the \<open>htmx:beforeSwap\<close>
  listener, which calls \<open>__darkDitherCleanup\<close> of every canvas in the document.\<close>

datatype image_event =
    ImgFrame nat
  | Intersection bool
  | ImgClassMutation
  | ImgScroll
  | ImgResize
  | BeforeSwap
  | CanvasDetached

fun image_fire :: "image_event \<Rightarrow> image_surface \<Rightarrow> image_surface" where
  "image_fire (ImgFrame frame) s =
     (if frame \<in> set (img_frames s)
      then image_render (s\<lparr>img_frames := removeAll frame (img_frames s)\<rparr>) else s)"
| "image_fire (Intersection isIntersecting) s =
     (if intersectionObserving s then intersectionCallback isIntersecting s else s)"
| "image_fire ImgClassMutation s = (if mutationObserving s then redrawIfIdle s else s)"
| "image_fire ImgScroll s = (if scrollListener s then redrawIfIdle s else s)"
| "image_fire ImgResize s = s"
| "image_fire BeforeSwap s =
     (if isConnected s \<and> cleanupProperty s then image_cleanup s else s)"
| "image_fire CanvasDetached s = s\<lparr>isConnected := False\<rparr>"

lemma image_cleanup_idempotent: "image_cleanup (image_cleanup s) = image_cleanup s"
  by (simp add: image_cleanup_def)

lemma image_leak_persists:
  assumes "didCleanup s" "\<not> isConnected s"
  shows "didCleanup (fold image_fire es s) \<and> \<not> isConnected (fold image_fire es s)
       \<and> resizeListener (fold image_fire es s) = resizeListener s
       \<and> scrollListener (fold image_fire es s) = scrollListener s
       \<and> intersectionObserving (fold image_fire es s) = intersectionObserving s
       \<and> mutationObserving (fold image_fire es s) = mutationObserving s"
  using assms
proof (induction es arbitrary: s)
  case Nil
  then show ?case by simp
next
  case (Cons e es)
  have "didCleanup (image_fire e s) \<and> \<not> isConnected (image_fire e s)
      \<and> resizeListener (image_fire e s) = resizeListener s
      \<and> scrollListener (image_fire e s) = scrollListener s
      \<and> intersectionObserving (image_fire e s) = intersectionObserving s
      \<and> mutationObserving (image_fire e s) = mutationObserving s"
    using Cons.prems
    by (cases e) (simp_all add: image_render_def image_cleanup_def redrawIfIdle_def
        intersectionCallback_def)
  with Cons.IH [of "image_fire e s"] show ?case by simp
qed


text \<open>
  Claim C6.  Both teardown functions are idempotent (\<open>cleanup_idempotent\<close>,
  \<open>image_cleanup_idempotent\<close>), but listeners of the surface outlive them.  Header: the
  canvas leaves the document and the fallback image loads; its \<open>render\<close> runs \<open>cleanup\<close>,
  after which the \<open>loadeddata\<close> listener of the video is still registered and, when its
  promise is fulfilled, runs and writes to the instance.  Image: \<open>setup\<close> for an image
  whose parent is not in the document; the first \<open>render\<close> runs \<open>cleanup\<close>, and \<open>setup\<close>
  then registers both observers and both \<open>window\<close> listeners, which another \<open>cleanup\<close>
  leaves as they are.
\<close>

theorem cleanup_leaves_listeners_behind:
  "(let p = run [Init, CanvasRemoved, FallbackLoad 0] (initialPage True True)
    in currentState p = None \<and> cleanup p = p \<and> mediaListeners p = [0]
       \<and> instances p = [\<lparr>animationId = None, currentSource = Some ImageSource, videoPlaying = False\<rparr>]
       \<and> instances (fire (LoadedDataPlay 0 True False) p)
           = [\<lparr>animationId = None, currentSource = Some VideoSource, videoPlaying = True\<rparr>])
   \<and> image_setup True True False True False
       = Some \<lparr>didCleanup = True, img_animationId = None, observer = True,
           darkModeObserver = True, isVisible = True, intersectionObserving = True,
           mutationObserving = True, resizeListener = True, scrollListener = True,
           img_frames = [], img_nextFrame = 1, img_contextLost = True, cleanupProperty = False,
           isConnected = False, loseContext = True, REDUCED_MOTION = False\<rparr>
   \<and> map_option image_cleanup (image_setup True True False True False)
       = image_setup True True False True False"
  by (simp add: run_def initialPage_def init_def cleanup_def render_def setupCanvas_def
      fallbackLoad_def loadedDataPlay_def removeFirstInteraction_def image_setup_def
      image_render_def image_cleanup_def Let_def)

end
